theory Spec2Isabelle
  imports Main "HOL-Library.AList" "HOL-Library.Sublist"
begin

section \<open>ChemPy molecules: atoms, bonds, chemical graphs and the OpenBabel adapter\<close>

text \<open>
  A shallow embedding of \<^verbatim>\<open>chempy/molecule.py\<close>. Python objects that are mutated
  through references (the atoms: \<^verbatim>\<open>neighbor.implicitHydrogens += 1\<close>) live in an explicit
  store and are named by their address; graphs hold addresses, as the Python graph holds
  references and keys its dictionaries by object identity. Python integers are \<open>int\<close>.
  A Python 2 dictionary is an association list with one entry per key; the order of the
  list stands for the iteration order of the dictionary, which Python 2 leaves to the hash
  table. Exceptions are values of type \<open>error\<close>; an operation that can raise returns
  \<open>error + result\<close>.
\<close>

subsection \<open>Exceptions\<close>

datatype error = KeyError | IndexError | AttributeError | ValueError

subsection \<open>Elements, atoms and bonds\<close>

text \<open>
  The element module is not among the sources. An element carries here its atomic number
  and symbol (the mass, a float, is read by no operation of this development).
\<close>

record element =
  number :: int
  symbol :: string

text \<open>
  What a name of the element module is bound to, and what the \<^verbatim>\<open>element\<close> attribute of
  an atom holds: an element, or some other object (the module binds \<^verbatim>\<open>getElement\<close> to a
  function and \<^verbatim>\<open>__name__\<close> to a string; a Python 2 \<^verbatim>\<open>unicode\<close> symbol is no \<^verbatim>\<open>str\<close>
  and is stored as it is). The string describes the other object.
\<close>

datatype elemval = AnElement element | NotAnElement string

type_synonym addr = nat

record atom =
  element :: "elemval option"
  radicalElectrons :: int
  spinMultiplicity :: int
  implicitHydrogens :: int
  charge :: int
  label :: string

record bond =
  order :: int

text \<open>
  The first argument of \<^verbatim>\<open>Atom.__init__\<close> is either a \<^verbatim>\<open>str\<close>, looked up in the
  namespace of the element module (\<^verbatim>\<open>elements.__dict__[element]\<close>, KeyError for a name
  that is not bound there; whatever is bound there is taken, element or not), or any other
  object, stored as it is (\<open>None\<close> by default). The namespace is the parameter \<open>reg\<close>.
\<close>

datatype element_arg = Symbol string | Elem "elemval option"

definition Atom_init ::
  "(string \<rightharpoonup> elemval) \<Rightarrow> element_arg \<Rightarrow> int \<Rightarrow> int \<Rightarrow> int \<Rightarrow> int \<Rightarrow> string \<Rightarrow> error + atom" where
  "Atom_init reg arg re sm ih ch lb =
     (case arg of
        Symbol nm \<Rightarrow>
          (case reg nm of
             None \<Rightarrow> Inl KeyError
           | Some v \<Rightarrow> Inr \<lparr>element = Some v, radicalElectrons = re, spinMultiplicity = sm,
                            implicitHydrogens = ih, charge = ch, label = lb\<rparr>)
      | Elem eo \<Rightarrow> Inr \<lparr>element = eo, radicalElectrons = re, spinMultiplicity = sm,
                         implicitHydrogens = ih, charge = ch, label = lb\<rparr>)"

definition Bond_init :: "int \<Rightarrow> bond" where
  "Bond_init n = \<lparr>order = n\<rparr>"

text \<open>
  \<^verbatim>\<open>atom.number\<close> reads \<^verbatim>\<open>self.element.number\<close>: AttributeError when the element is
  \<^verbatim>\<open>None\<close> or an object that is no element.
\<close>

definition atom_number :: "atom \<Rightarrow> error + int" where
  "atom_number a =
     (case element a of
        None \<Rightarrow> Inl AttributeError
      | Some (NotAnElement d) \<Rightarrow> Inl AttributeError
      | Some (AnElement e) \<Rightarrow> Inr (number e))"

definition isHydrogen :: "atom \<Rightarrow> error + bool" where
  "isHydrogen a = (case atom_number a of Inl e \<Rightarrow> Inl e | Inr n \<Rightarrow> Inr (n = 1))"

definition isNonHydrogen :: "atom \<Rightarrow> error + bool" where
  "isNonHydrogen a = (case atom_number a of Inl e \<Rightarrow> Inl e | Inr n \<Rightarrow> Inr (n > 1))"

definition Atom_copy :: "atom \<Rightarrow> atom" where
  "Atom_copy a = \<lparr>element = element a, radicalElectrons = radicalElectrons a,
     spinMultiplicity = spinMultiplicity a, implicitHydrogens = implicitHydrogens a,
     charge = charge a, label = label a\<rparr>"

definition Bond_copy :: "bond \<Rightarrow> bond" where
  "Bond_copy b = Bond_init (order b)"

subsection \<open>The store of atom objects\<close>

record store =
  cells :: "addr \<Rightarrow> atom"
  next_addr :: addr

text \<open>Creating an object: the next free address receives it.\<close>

definition alloc :: "atom \<Rightarrow> store \<Rightarrow> addr \<times> store" where
  "alloc a s = (next_addr s, s\<lparr>cells := (cells s)(next_addr s := a), next_addr := Suc (next_addr s)\<rparr>)"

text \<open>\<^verbatim>\<open>neighbor.implicitHydrogens += 1\<close> and \<^verbatim>\<open>atom.implicitHydrogens -= 1\<close>.\<close>

definition add_implicit :: "addr \<Rightarrow> int \<Rightarrow> store \<Rightarrow> store" where
  "add_implicit a d s =
     s\<lparr>cells := (cells s)(a := (cells s a)\<lparr>implicitHydrogens := implicitHydrogens (cells s a) + d\<rparr>)\<rparr>"

subsection \<open>Chemical graphs\<close>

type_synonym bonds = "(addr \<times> (addr \<times> bond) list) list"

record chemgraph =
  vertices :: "addr list"
  edges :: bonds
  implicitHydrogensFlag :: bool

text \<open>\<^verbatim>\<open>getBond\<close>: the bond stored under \<open>(a, b)\<close>, if any.\<close>

definition stored_bond :: "bonds \<Rightarrow> addr \<Rightarrow> addr \<Rightarrow> bond option" where
  "stored_bond E a b = (case map_of E a of None \<Rightarrow> None | Some d \<Rightarrow> map_of d b)"

text \<open>
  The symmetric store of \<^verbatim>\<open>fromOBMol\<close>:
  \<^verbatim>\<open>
  if atom1 not in chemGraph.bonds: chemGraph.bonds[atom1] = {}
  if atom2 not in chemGraph.bonds: chemGraph.bonds[atom2] = {}
  chemGraph.bonds[atom1][atom2] = bond
  chemGraph.bonds[atom2][atom1] = bond
  \<close>
  After the two guards both entries exist, so the two assignments cannot raise KeyError;
  \<open>neighbours\<close> reads a missing entry as empty.
\<close>

definition ensure_entry :: "addr \<Rightarrow> bonds \<Rightarrow> bonds" where
  "ensure_entry a E = (if map_of E a = None then AList.update a [] E else E)"

definition neighbours :: "bonds \<Rightarrow> addr \<Rightarrow> (addr \<times> bond) list" where
  "neighbours E a = (case map_of E a of None \<Rightarrow> [] | Some d \<Rightarrow> d)"

definition put_bond :: "addr \<Rightarrow> addr \<Rightarrow> bond \<Rightarrow> bonds \<Rightarrow> bonds" where
  "put_bond a b bd E = AList.update a (AList.update b bd (neighbours E a)) E"

definition store_bond :: "addr \<Rightarrow> addr \<Rightarrow> bond \<Rightarrow> bonds \<Rightarrow> bonds" where
  "store_bond a1 a2 bd E = put_bond a2 a1 bd (put_bond a1 a2 bd (ensure_entry a2 (ensure_entry a1 E)))"

text \<open>
  Modelled from the spec: the generic graph module (\<^verbatim>\<open>graph.Graph\<close>: \<^verbatim>\<open>__init__\<close>,
  \<^verbatim>\<open>addVertex\<close>, \<^verbatim>\<open>addEdge\<close>, \<^verbatim>\<open>removeVertex\<close>, \<^verbatim>\<open>copy\<close>) is not among the sources.
  A new graph takes the given vertices and edges, empty when none are given. Adding a vertex
  appends it "with no bonds". Adding an edge stores the bond "symmetrically under both"
  orderings. Removing a vertex removes it and "all of its bonds", leaving "no dangling bond
  endpoints". A shallow copy "aliases vertex/edge objects with the source"; a deep copy
  "produces independently-identified copies".
\<close>

definition Graph_init :: "addr list option \<Rightarrow> bonds option \<Rightarrow> addr list \<times> bonds" where
  "Graph_init vs es = ((case vs of None \<Rightarrow> [] | Some v \<Rightarrow> v), (case es of None \<Rightarrow> [] | Some e \<Rightarrow> e))"

definition addVertex :: "addr \<Rightarrow> chemgraph \<Rightarrow> chemgraph" where
  "addVertex v g = g\<lparr>vertices := vertices g @ [v], edges := AList.update v [] (edges g)\<rparr>"

definition addEdge :: "addr \<Rightarrow> addr \<Rightarrow> bond \<Rightarrow> chemgraph \<Rightarrow> chemgraph" where
  "addEdge v1 v2 e g = g\<lparr>edges := store_bond v1 v2 e (edges g)\<rparr>"

definition removeVertex :: "addr \<Rightarrow> chemgraph \<Rightarrow> chemgraph" where
  "removeVertex v g =
     g\<lparr>vertices := remove1 v (vertices g),
       edges := map (\<lambda>(u, d). (u, AList.delete v d)) (AList.delete v (edges g))\<rparr>"

fun copy_atoms :: "addr list \<Rightarrow> store \<Rightarrow> addr list \<times> store" where
  "copy_atoms [] s = ([], s)"
| "copy_atoms (v # vs) s =
     (let (v', s1) = alloc (Atom_copy (cells s v)) s;
          (vs', s2) = copy_atoms vs s1
      in (v' # vs', s2))"

definition rename :: "addr list \<Rightarrow> addr list \<Rightarrow> addr \<Rightarrow> addr" where
  "rename vs vs' a = (case map_of (zip vs vs') a of None \<Rightarrow> a | Some a' \<Rightarrow> a')"

definition Graph_copy :: "bool \<Rightarrow> store \<times> chemgraph \<Rightarrow> error + store \<times> addr list \<times> bonds" where
  "Graph_copy deep sg =
     (case sg of (s, g) \<Rightarrow>
        if deep then
          (let (vs', s') = copy_atoms (vertices g) s;
               r = rename (vertices g) vs'
           in Inr (s', vs', map (\<lambda>(u, d). (r u, map (\<lambda>(w, b). (r w, Bond_copy b)) d)) (edges g)))
        else Inr (s, vertices g, edges g))"

text \<open>\<^verbatim>\<open>ChemGraph.__init__\<close>: the graph of the given atoms and bonds, flag \<^verbatim>\<open>False\<close>.\<close>

definition ChemGraph_init :: "addr list option \<Rightarrow> bonds option \<Rightarrow> chemgraph" where
  "ChemGraph_init vs es =
     (case Graph_init vs es of (v, e) \<Rightarrow> \<lparr>vertices = v, edges = e, implicitHydrogensFlag = False\<rparr>)"

text \<open>
  \<^verbatim>\<open>ChemGraph.copy\<close>: \<^verbatim>\<open>g = graph.Graph.copy(self, deep)\<close>, then
  \<^verbatim>\<open>ChemGraph(g.vertices, g.edges)\<close>. The copy of the generic graph is the parameter
  \<open>gcopy\<close>.
\<close>

definition ChemGraph_copy ::
  "(bool \<Rightarrow> store \<times> chemgraph \<Rightarrow> error + store \<times> addr list \<times> bonds) \<Rightarrow> bool \<Rightarrow> store \<times> chemgraph \<Rightarrow>
     error + store \<times> chemgraph" where
  "ChemGraph_copy gcopy deep sg =
     (case gcopy deep sg of
        Inl e \<Rightarrow> Inl e
      | Inr (s', vs, es) \<Rightarrow> Inr (s', ChemGraph_init (Some vs) (Some es)))"

subsection \<open>Hydrogen compression\<close>

text \<open>The list comprehension \<^verbatim>\<open>[atom.isHydrogen() for atom in self.atoms]\<close>.\<close>

fun hydrogen_flags :: "store \<Rightarrow> addr list \<Rightarrow> error + bool list" where
  "hydrogen_flags s [] = Inr []"
| "hydrogen_flags s (a # as) =
     (case isHydrogen (cells s a) of
        Inl e \<Rightarrow> Inl e
      | Inr b \<Rightarrow> (case hydrogen_flags s as of Inl e \<Rightarrow> Inl e | Inr bs \<Rightarrow> Inr (b # bs)))"

text \<open>
  The first loop of \<^verbatim>\<open>makeHydrogensImplicit\<close>: \<^verbatim>\<open>self.bonds[atom]\<close> raises KeyError when
  the hydrogen has no entry, \<^verbatim>\<open>.keys()[0]\<close> raises IndexError when the entry is empty.
\<close>

fun count_hydrogens :: "bonds \<Rightarrow> addr list \<Rightarrow> store \<Rightarrow> addr list \<Rightarrow> error + store \<times> addr list" where
  "count_hydrogens E [] s hs = Inr (s, hs)"
| "count_hydrogens E (a # as) s hs =
     (case isHydrogen (cells s a) of
        Inl e \<Rightarrow> Inl e
      | Inr False \<Rightarrow> count_hydrogens E as s hs
      | Inr True \<Rightarrow>
          (case map_of E a of
             None \<Rightarrow> Inl KeyError
           | Some [] \<Rightarrow> Inl IndexError
           | Some ((neighbor, b) # rest) \<Rightarrow>
               count_hydrogens E as (add_implicit neighbor 1 s) (hs @ [a])))"

text \<open>The second loop: \<^verbatim>\<open>for atom in hydrogens: self.removeAtom(atom)\<close>.\<close>

fun remove_atoms :: "addr list \<Rightarrow> chemgraph \<Rightarrow> chemgraph" where
  "remove_atoms [] g = g"
| "remove_atoms (h # hs) g = remove_atoms hs (removeVertex h g)"

definition makeHydrogensImplicit :: "store \<times> chemgraph \<Rightarrow> error + store \<times> chemgraph" where
  "makeHydrogensImplicit sg =
     (case sg of (s, g) \<Rightarrow>
        (case hydrogen_flags s (vertices g) of
           Inl e \<Rightarrow> Inl e
         | Inr fs \<Rightarrow>
             if list_all (\<lambda>b. b) fs then Inr (s, g)
             else
               (case count_hydrogens (edges g) (vertices g) s [] of
                  Inl e \<Rightarrow> Inl e
                | Inr (s', hs) \<Rightarrow> Inr (s', (remove_atoms hs g)\<lparr>implicitHydrogensFlag := True\<rparr>))))"

text \<open>
  The planning loop of \<^verbatim>\<open>makeHydrogensExplicit\<close>: while the counter of the atom is
  positive, create a hydrogen (\<^verbatim>\<open>Atom(element='H')\<close>, a lookup in the element namespace)
  and a single bond, record the triple and decrement the counter.
\<close>

function plan_hydrogens ::
  "(string \<rightharpoonup> elemval) \<Rightarrow> addr \<Rightarrow> store \<Rightarrow> (addr \<times> addr \<times> bond) list \<Rightarrow>
     error + store \<times> (addr \<times> addr \<times> bond) list" where
  "plan_hydrogens reg a s hs =
     (if implicitHydrogens (cells s a) > 0 then
        (case Atom_init reg (Symbol ''H'') 0 1 0 0 '''' of
           Inl e \<Rightarrow> Inl e
         | Inr H \<Rightarrow>
             plan_hydrogens reg a (add_implicit a (- 1) (snd (alloc H s)))
               (hs @ [(fst (alloc H s), a, Bond_init 1)]))
      else Inr (s, hs))"
  by pat_completeness auto
termination
proof (relation "measure (\<lambda>(reg, a, s, hs). nat (implicitHydrogens (cells s a)))")
  show "wf (measure (\<lambda>(reg, a, s, hs). nat (implicitHydrogens (cells s a))))" by simp
next
  fix reg :: "string \<rightharpoonup> elemval" and a :: addr and s :: store
    and hs :: "(addr \<times> addr \<times> bond) list" and H :: atom
  assume pos: "0 < implicitHydrogens (cells s a)"
    and mk: "Atom_init reg (Symbol ''H'') 0 1 0 0 '''' = Inr H"
  from mk have "implicitHydrogens H = 0"
    by (auto simp: Atom_init_def split: option.splits)
  with pos show "((reg, a, add_implicit a (- 1) (snd (alloc H s)), hs @ [(fst (alloc H s), a, Bond_init 1)]),
      (reg, a, s, hs)) \<in> measure (\<lambda>(reg, a, s, hs). nat (implicitHydrogens (cells s a)))"
    by (auto simp: add_implicit_def alloc_def)
qed

fun plan_all ::
  "(string \<rightharpoonup> elemval) \<Rightarrow> addr list \<Rightarrow> store \<Rightarrow> (addr \<times> addr \<times> bond) list \<Rightarrow>
     error + store \<times> (addr \<times> addr \<times> bond) list" where
  "plan_all reg [] s hs = Inr (s, hs)"
| "plan_all reg (a # as) s hs =
     (case plan_hydrogens reg a s hs of
        Inl e \<Rightarrow> Inl e
      | Inr (s', hs') \<Rightarrow> plan_all reg as s' hs')"

text \<open>The second loop: \<^verbatim>\<open>self.addAtom(H); self.addBond(H, atom, bond)\<close> for each triple.\<close>

fun add_hydrogens :: "(addr \<times> addr \<times> bond) list \<Rightarrow> chemgraph \<Rightarrow> chemgraph" where
  "add_hydrogens [] g = g"
| "add_hydrogens ((H, a, b) # hs) g = add_hydrogens hs (addEdge H a b (addVertex H g))"

definition makeHydrogensExplicit ::
  "(string \<rightharpoonup> elemval) \<Rightarrow> store \<times> chemgraph \<Rightarrow> error + store \<times> chemgraph" where
  "makeHydrogensExplicit reg sg =
     (case sg of (s, g) \<Rightarrow>
        (case plan_all reg (vertices g) s [] of
           Inl e \<Rightarrow> Inl e
         | Inr (s', hs) \<Rightarrow> Inr (s', (add_hydrogens hs g)\<lparr>implicitHydrogensFlag := False\<rparr>)))"

subsection \<open>Molecules\<close>

record molecule =
  resonanceForms :: "chemgraph list"

definition Molecule_init :: molecule where
  "Molecule_init = \<lparr>resonanceForms = []\<rparr>"

subsection \<open>Import from the foreign model\<close>

text \<open>
  What \<^verbatim>\<open>fromOBMol\<close> reads of an OpenBabel molecule: its atoms in their native order
  (\<^verbatim>\<open>NumAtoms\<close>, \<^verbatim>\<open>GetAtom(i + 1)\<close>) with atomic number, spin-multiplicity code and formal
  charge, and \<^verbatim>\<open>obatom.GetBond(obatom2)\<close> for the atoms at positions \<open>i\<close> and \<open>j\<close>,
  with the four predicates of the bond.
\<close>

record obatom =
  AtomicNum :: int
  SpinMultiplicity :: int
  FormalCharge :: int

record obbond =
  IsSingle :: bool
  IsDouble :: bool
  IsTriple :: bool
  IsAromatic :: bool

record obmol =
  obatoms :: "obatom list"
  GetBond :: "nat \<Rightarrow> nat \<Rightarrow> obbond option"

text \<open>
  The spin table: \<^verbatim>\<open>radicalElectrons = 0\<close>, \<^verbatim>\<open>spinMultiplicity = GetSpinMultiplicity()\<close>,
  then an \<^verbatim>\<open>if/elif\<close> chain on the codes 0, 1, 2, 3 with no \<^verbatim>\<open>else\<close>. The result is the
  pair (radicalElectrons, spinMultiplicity).
\<close>

definition decode_spin :: "int \<Rightarrow> int \<times> int" where
  "decode_spin c =
     (if c = 0 then (0, 1)
      else if c = 1 then (2, 1)
      else if c = 2 then (1, 2)
      else if c = 3 then (2, 3)
      else (0, c))"

definition bond_order :: "obbond \<Rightarrow> int" where
  "bond_order b =
     (if IsSingle b then 1
      else if IsDouble b then 2
      else if IsTriple b then 3
      else if IsAromatic b then 5
      else 0)"

text \<open>\<^verbatim>\<open>chemGraph.atoms[i]\<close> for a non-negative \<open>i\<close>.\<close>

definition list_get :: "'a list \<Rightarrow> nat \<Rightarrow> error + 'a" where
  "list_get xs i = (if i < length xs then Inr (xs ! i) else Inl IndexError)"

text \<open>The inner loop \<^verbatim>\<open>for j in range(0, i)\<close>.\<close>

fun import_bonds :: "obmol \<Rightarrow> nat \<Rightarrow> nat list \<Rightarrow> chemgraph \<Rightarrow> error + chemgraph" where
  "import_bonds ob i [] g = Inr g"
| "import_bonds ob i (j # js) g =
     (case GetBond ob i j of
        None \<Rightarrow> import_bonds ob i js g
      | Some obb \<Rightarrow>
          (case list_get (vertices g) i of
             Inl e \<Rightarrow> Inl e
           | Inr atom1 \<Rightarrow>
               (case list_get (vertices g) j of
                  Inl e \<Rightarrow> Inl e
                | Inr atom2 \<Rightarrow>
                    import_bonds ob i js
                      (g\<lparr>edges := store_bond atom1 atom2 (Bond_init (bond_order obb)) (edges g)\<rparr>))))"

text \<open>
  The outer loop \<^verbatim>\<open>for i in range(0, obmol.NumAtoms())\<close>, over the foreign atoms from
  position \<open>i\<close> on. \<open>getElement\<close> is \<^verbatim>\<open>elements.getElement(number=number)\<close>, a function
  of the element module that may raise.
\<close>

fun import_atoms ::
  "(string \<rightharpoonup> elemval) \<Rightarrow> (int \<Rightarrow> error + element) \<Rightarrow> obmol \<Rightarrow> nat \<Rightarrow> obatom list \<Rightarrow>
     store \<times> chemgraph \<Rightarrow> error + store \<times> chemgraph" where
  "import_atoms reg getElement ob i [] sg = Inr sg"
| "import_atoms reg getElement ob i (oa # oas) sg =
     (case getElement (AtomicNum oa) of
        Inl e \<Rightarrow> Inl e
      | Inr el \<Rightarrow>
          (case Atom_init reg (Elem (Some (AnElement el))) (fst (decode_spin (SpinMultiplicity oa)))
                  (snd (decode_spin (SpinMultiplicity oa))) 0 (FormalCharge oa) '''' of
             Inl e \<Rightarrow> Inl e
           | Inr a \<Rightarrow>
               (case import_bonds ob i [0..<i]
                       ((snd sg)\<lparr>vertices := vertices (snd sg) @ [fst (alloc a (fst sg))]\<rparr>) of
                  Inl e \<Rightarrow> Inl e
                | Inr g' \<Rightarrow> import_atoms reg getElement ob (Suc i) oas (snd (alloc a (fst sg)), g'))))"

text \<open>
  \<^verbatim>\<open>fromOBMol\<close>. \<open>AddHydrogens\<close> is the foreign model's own completion of the molecule.
  The result is the store and the molecule whose only resonance form is the new graph.
\<close>

definition fromOBMol ::
  "(string \<rightharpoonup> elemval) \<Rightarrow> (int \<Rightarrow> error + element) \<Rightarrow> (obmol \<Rightarrow> obmol) \<Rightarrow> obmol \<Rightarrow> store \<Rightarrow>
     error + store \<times> molecule" where
  "fromOBMol reg getElement AddHydrogens ob0 s =
     (let ob = AddHydrogens ob0 in
      case import_atoms reg getElement ob 0 (obatoms ob) (s, ChemGraph_init None None) of
        Inl e \<Rightarrow> Inl e
      | Inr (s1, g1) \<Rightarrow>
          (case makeHydrogensImplicit (s1, g1) of
             Inl e \<Rightarrow> Inl e
           | Inr (s2, g2) \<Rightarrow> Inr (s2, \<lparr>resonanceForms = [g2]\<rparr>)))"

subsection \<open>Export to the foreign model\<close>

text \<open>
  The foreign molecule built by \<^verbatim>\<open>toOBMol\<close> is the sequence of calls made on the fresh
  \<^verbatim>\<open>openbabel.OBMol()\<close>.
\<close>

datatype obcall =
  NewAtom
| SetAtomicNum int
| SetFormalCharge int
| AddBond int int int
| AssignSpinMultiplicity bool

text \<open>
  Modelled from the spec: \<^verbatim>\<open>sortVertices\<close> of the generic graph module is not among the
  sources. The "canonical sort on the graph's atoms" replaces the order of the atom list by
  the canonical one, the parameter \<open>srt\<close>.
\<close>

definition sortAtoms :: "(store \<Rightarrow> chemgraph \<Rightarrow> addr list) \<Rightarrow> store \<Rightarrow> chemgraph \<Rightarrow> chemgraph" where
  "sortAtoms srt s g = g\<lparr>vertices := srt s g\<rparr>"

fun new_atoms :: "store \<Rightarrow> addr list \<Rightarrow> error + obcall list" where
  "new_atoms s [] = Inr []"
| "new_atoms s (a # as) =
     (case atom_number (cells s a) of
        Inl e \<Rightarrow> Inl e
      | Inr n \<Rightarrow>
          (case new_atoms s as of
             Inl e \<Rightarrow> Inl e
           | Inr cs \<Rightarrow> Inr ([NewAtom, SetAtomicNum n, SetFormalCharge (charge (cells s a))] @ cs)))"

text \<open>\<^verbatim>\<open>atoms.index(atom)\<close>: the first position of the atom, ValueError when it is absent.\<close>

fun list_index :: "addr list \<Rightarrow> addr \<Rightarrow> error + nat" where
  "list_index [] x = Inl ValueError"
| "list_index (y # ys) x =
     (if y = x then Inr 0
      else (case list_index ys x of Inl e \<Rightarrow> Inl e | Inr i \<Rightarrow> Inr (Suc i)))"

text \<open>The loops over \<^verbatim>\<open>bonds.iteritems()\<close>: the inner one for one \<open>atom1\<close>, then the outer one.\<close>

fun bonds_of_atom :: "addr list \<Rightarrow> addr \<Rightarrow> (addr \<times> bond) list \<Rightarrow> error + obcall list" where
  "bonds_of_atom atoms atom1 [] = Inr []"
| "bonds_of_atom atoms atom1 ((atom2, b) # rest) =
     (case list_index atoms atom1 of
        Inl e \<Rightarrow> Inl e
      | Inr index1 \<Rightarrow>
          (case list_index atoms atom2 of
             Inl e \<Rightarrow> Inl e
           | Inr index2 \<Rightarrow>
               (case bonds_of_atom atoms atom1 rest of
                  Inl e \<Rightarrow> Inl e
                | Inr cs \<Rightarrow>
                    Inr ((if index1 < index2
                          then [AddBond (int index1 + 1) (int index2 + 1) (order b)] else []) @ cs))))"

fun all_bonds :: "addr list \<Rightarrow> bonds \<Rightarrow> error + obcall list" where
  "all_bonds atoms [] = Inr []"
| "all_bonds atoms ((atom1, d) # rest) =
     (case bonds_of_atom atoms atom1 d of
        Inl e \<Rightarrow> Inl e
      | Inr cs \<Rightarrow> (case all_bonds atoms rest of Inl e \<Rightarrow> Inl e | Inr cs' \<Rightarrow> Inr (cs @ cs')))"

text \<open>
  The first half of \<^verbatim>\<open>toOBMol\<close>: the first resonance form (IndexError when there is none)
  with its hydrogens made explicit and its atoms sorted.
\<close>

definition export_form ::
  "(string \<rightharpoonup> elemval) \<Rightarrow> (store \<Rightarrow> chemgraph \<Rightarrow> addr list) \<Rightarrow> store \<times> molecule \<Rightarrow>
     error + store \<times> chemgraph" where
  "export_form reg srt sm =
     (case resonanceForms (snd sm) of
        [] \<Rightarrow> Inl IndexError
      | g # rest \<Rightarrow>
          (case makeHydrogensExplicit reg (fst sm, g) of
             Inl e \<Rightarrow> Inl e
           | Inr (s1, g1) \<Rightarrow> Inr (s1, sortAtoms srt s1 g1)))"

text \<open>
  \<^verbatim>\<open>toOBMol\<close>: the store, the molecule (its first resonance form mutated in place) and
  the calls made on the foreign molecule.
\<close>

definition toOBMol ::
  "(string \<rightharpoonup> elemval) \<Rightarrow> (store \<Rightarrow> chemgraph \<Rightarrow> addr list) \<Rightarrow> store \<times> molecule \<Rightarrow>
     error + store \<times> molecule \<times> obcall list" where
  "toOBMol reg srt sm =
     (case resonanceForms (snd sm) of
        [] \<Rightarrow> Inl IndexError
      | g # rest \<Rightarrow>
          (let implicitH = implicitHydrogensFlag g in
           case export_form reg srt sm of
             Inl e \<Rightarrow> Inl e
           | Inr (s1, g2) \<Rightarrow>
               (case new_atoms s1 (vertices g2) of
                  Inl e \<Rightarrow> Inl e
                | Inr cs1 \<Rightarrow>
                    (case all_bonds (vertices g2) (edges g2) of
                       Inl e \<Rightarrow> Inl e
                     | Inr cs2 \<Rightarrow>
                         (if implicitH then
                            (case makeHydrogensImplicit (s1, g2) of
                               Inl e \<Rightarrow> Inl e
                             | Inr (s3, g3) \<Rightarrow>
                                 Inr (s3, (snd sm)\<lparr>resonanceForms := g3 # rest\<rparr>,
                                      cs1 @ cs2 @ [AssignSpinMultiplicity True]))
                          else
                            Inr (s1, (snd sm)\<lparr>resonanceForms := g2 # rest\<rparr>,
                                 cs1 @ cs2 @ [AssignSpinMultiplicity True]))))))"

subsection \<open>Isomorphism of molecules\<close>

text \<open>
  The argument of \<^verbatim>\<open>Molecule.isIsomorphic\<close> is any Python object: a molecule, a chemical
  graph, or something else. \<open>giso\<close> is \<^verbatim>\<open>ChemGraph.isIsomorphic\<close>, inherited from the
  generic graph module.
\<close>

datatype pyobj = MoleculeObj molecule | ChemGraphObj chemgraph | OtherObj

fun iso_any2 :: "(chemgraph \<Rightarrow> chemgraph \<Rightarrow> bool) \<Rightarrow> chemgraph \<Rightarrow> chemgraph list \<Rightarrow> bool" where
  "iso_any2 giso chemGraph1 [] = False"
| "iso_any2 giso chemGraph1 (chemGraph2 # gs) =
     (if giso chemGraph1 chemGraph2 then True else iso_any2 giso chemGraph1 gs)"

fun iso_any1 :: "(chemgraph \<Rightarrow> chemgraph \<Rightarrow> bool) \<Rightarrow> chemgraph list \<Rightarrow> chemgraph list \<Rightarrow> bool" where
  "iso_any1 giso [] gs2 = False"
| "iso_any1 giso (chemGraph1 # gs1) gs2 =
     (if iso_any2 giso chemGraph1 gs2 then True else iso_any1 giso gs1 gs2)"

fun iso_graph :: "(chemgraph \<Rightarrow> chemgraph \<Rightarrow> bool) \<Rightarrow> chemgraph list \<Rightarrow> chemgraph \<Rightarrow> bool" where
  "iso_graph giso [] other = False"
| "iso_graph giso (chemGraph1 # gs1) other =
     (if giso chemGraph1 other then True else iso_graph giso gs1 other)"

definition isIsomorphic :: "(chemgraph \<Rightarrow> chemgraph \<Rightarrow> bool) \<Rightarrow> molecule \<Rightarrow> pyobj \<Rightarrow> bool" where
  "isIsomorphic giso self other =
     (case other of
        MoleculeObj m \<Rightarrow> iso_any1 giso (resonanceForms self) (resonanceForms m)
      | ChemGraphObj g \<Rightarrow> iso_graph giso (resonanceForms self) g
      | OtherObj \<Rightarrow> False)"

subsection \<open>Notions used in the statements\<close>

text \<open>The degree of an atom: the number of neighbours stored for it (none when it has no entry).\<close>

definition degree :: "bonds \<Rightarrow> addr \<Rightarrow> nat" where
  "degree E a = length (neighbours E a)"

text \<open>The first hydrogen of a list of atoms that has degree 0, if there is one.\<close>

definition first_unbonded :: "store \<Rightarrow> bonds \<Rightarrow> addr list \<Rightarrow> addr option" where
  "first_unbonded s E vs = find (\<lambda>h. isHydrogen (cells s h) = Inr True \<and> degree E h = 0) vs"

text \<open>An atom whose \<^verbatim>\<open>element\<close> attribute holds an element.\<close>

definition has_element :: "atom \<Rightarrow> bool" where
  "has_element a = (case element a of Some (AnElement e) \<Rightarrow> True | _ \<Rightarrow> False)"


text \<open>The bond storage invariant: what is stored under \<open>(a, b)\<close> is stored under \<open>(b, a)\<close>.\<close>

definition symmetric_bonds :: "bonds \<Rightarrow> bool" where
  "symmetric_bonds E = (\<forall>a b. stored_bond E a b = stored_bond E b a)"

text \<open>The pair (radicalElectrons, spinMultiplicity) of an atom.\<close>

definition decoded :: "atom \<Rightarrow> int \<times> int" where
  "decoded a = (radicalElectrons a, spinMultiplicity a)"

text \<open>
  A call that adds a bond between the foreign atoms \<open>x\<close> and \<open>y\<close>, in either order; a
  dictionary of dictionaries with one entry per key, as every Python dictionary has; a list of
  atoms that are all hydrogen.
\<close>

definition is_bond_call :: "int \<Rightarrow> int \<Rightarrow> obcall \<Rightarrow> bool" where
  "is_bond_call x y c =
     (case c of AddBond u v n \<Rightarrow> (u = x \<and> v = y) \<or> (u = y \<and> v = x) | _ \<Rightarrow> False)"

definition one_entry_per_key :: "bonds \<Rightarrow> bool" where
  "one_entry_per_key E =
     (distinct (map fst E) \<and> list_all (\<lambda>(a, d). distinct (map fst d)) E)"

definition all_hydrogen :: "store \<Rightarrow> addr list \<Rightarrow> bool" where
  "all_hydrogen s vs = list_all (\<lambda>a. isHydrogen (cells s a) = Inr True) vs"

text \<open>
  The number of stored bonds: every bond is stored under both orderings of its atoms, so a
  graph of \<open>n\<close> bonds has \<open>2 * n\<close> entries.
\<close>

definition count_bonds :: "bonds \<Rightarrow> nat" where
  "count_bonds E = sum_list (map (\<lambda>(a, d). length d) E)"

text \<open>
  A list of atoms none of which is a hydrogen; a graph all of whose atoms are objects that
  exist in the store.
\<close>

definition heavy_only :: "store \<Rightarrow> addr list \<Rightarrow> bool" where
  "heavy_only s vs = list_all (\<lambda>a. isHydrogen (cells s a) = Inr False) vs"

definition allocated :: "store \<Rightarrow> chemgraph \<Rightarrow> bool" where
  "allocated s g =
     (list_all (\<lambda>a. a < next_addr s) (vertices g) \<and>
      list_all (\<lambda>(a, d). a < next_addr s \<and> list_all (\<lambda>(b, bd). b < next_addr s) d) (edges g))"

text \<open>The bonds that remain when the atoms \<open>H\<close> go, with every entry under or of one of them.\<close>

definition strip_atoms :: "addr set \<Rightarrow> bonds \<Rightarrow> bonds" where
  "strip_atoms H E =
     map (\<lambda>(u, d). (u, filter (\<lambda>(k, b). k \<notin> H) d)) (filter (\<lambda>(u, d). u \<notin> H) E)"

text \<open>
  What the planning loop of \<^verbatim>\<open>makeHydrogensExplicit\<close> does between two stores: it creates
  the hydrogens \<open>new\<close>, one object after the other, each for an atom of \<open>A\<close> with a single
  bond, and takes one off the counter of that atom for each.
\<close>

definition planned ::
  "element \<Rightarrow> addr set \<Rightarrow> store \<Rightarrow> store \<Rightarrow> (addr \<times> addr \<times> bond) list \<Rightarrow> bool" where
  "planned eH A s s' new =
     (next_addr s' = next_addr s + length new \<and>
      map fst new = [next_addr s..<next_addr s'] \<and>
      (\<forall>(h, a, b)\<in>set new. a \<in> A \<and> b = Bond_init 1) \<and>
      (\<forall>x<next_addr s. element (cells s' x) = element (cells s x) \<and>
          implicitHydrogens (cells s' x) =
            implicitHydrogens (cells s x) - int (count_list (map (\<lambda>(h, a, b). a) new) x)) \<and>
      (\<forall>x. next_addr s \<le> x \<and> x < next_addr s' \<longrightarrow> element (cells s' x) = Some (AnElement eH)))"

text \<open>Two stores with the same objects, up to everything but the elements of the atoms.\<close>

definition same_elements :: "store \<Rightarrow> store \<Rightarrow> bool" where
  "same_elements s s' =
     (next_addr s = next_addr s' \<and> (\<forall>x. element (cells s x) = element (cells s' x)))"

subsection \<open>Concrete inputs\<close>

text \<open>
  A small namespace of the element module (two elements, the function \<^verbatim>\<open>getElement\<close> that
  \<^verbatim>\<open>fromOBMol\<close> calls, and the \<^verbatim>\<open>__name__\<close> every module has), a lookup by atomic number, a
  foreign model that is already complete, and an order that reverses the atom list, for
  evaluating the operations.
\<close>

definition elH :: element where
  "elH = \<lparr>number = 1, symbol = ''H''\<rparr>"

definition elC :: element where
  "elC = \<lparr>number = 6, symbol = ''C''\<rparr>"

definition example_reg :: "string \<rightharpoonup> elemval" where
  "example_reg =
     [''H'' \<mapsto> AnElement elH, ''C'' \<mapsto> AnElement elC,
      ''getElement'' \<mapsto> NotAnElement ''function getElement'',
      ''__name__'' \<mapsto> NotAnElement ''str element'']"

definition example_getElement :: "int \<Rightarrow> error + element" where
  "example_getElement n = (if n = 1 then Inr elH else if n = 6 then Inr elC else Inl ValueError)"

definition complete :: "obmol \<Rightarrow> obmol" where
  "complete ob = ob"

definition reversed :: "store \<Rightarrow> chemgraph \<Rightarrow> addr list" where
  "reversed s g = rev (vertices g)"

definition mk_atom :: "element \<Rightarrow> int \<Rightarrow> atom" where
  "mk_atom e ih = \<lparr>element = Some (AnElement e), radicalElectrons = 0, spinMultiplicity = 1,
     implicitHydrogens = ih, charge = 0, label = ''''\<rparr>"

definition no_atom :: atom where
  "no_atom = \<lparr>element = None, radicalElectrons = 0, spinMultiplicity = 1,
     implicitHydrogens = 0, charge = 0, label = ''''\<rparr>"

definition empty_store :: store where
  "empty_store = \<lparr>cells = (\<lambda>a. no_atom), next_addr = 0\<rparr>"

definition single_bond :: bond where
  "single_bond = \<lparr>order = 1\<rparr>"

definition store_of :: "atom list \<Rightarrow> store" where
  "store_of xs = \<lparr>cells = (\<lambda>a. if a < length xs then xs ! a else no_atom), next_addr = length xs\<rparr>"

text \<open>Two bonded hydrogen atoms, stored explicitly.\<close>

definition h2_store :: store where
  "h2_store = store_of [mk_atom elH 0, mk_atom elH 0]"

definition h2_graph :: chemgraph where
  "h2_graph = \<lparr>vertices = [0, 1], edges = [(0, [(1, single_bond)]), (1, [(0, single_bond)])],
     implicitHydrogensFlag = False\<rparr>"

text \<open>A carbon atom with four implicit hydrogens.\<close>

definition ch4_store :: store where
  "ch4_store = store_of [mk_atom elC 4]"

definition ch4_graph :: chemgraph where
  "ch4_graph = \<lparr>vertices = [0], edges = [(0, [])], implicitHydrogensFlag = True\<rparr>"

text \<open>A carbon atom bonded to one explicit hydrogen.\<close>

definition ch_store :: store where
  "ch_store = store_of [mk_atom elC 0, mk_atom elH 0]"

definition ch_graph :: chemgraph where
  "ch_graph = \<lparr>vertices = [0, 1], edges = [(0, [(1, single_bond)]), (1, [(0, single_bond)])],
     implicitHydrogensFlag = False\<rparr>"

text \<open>An order-insensitive stand-in for the graph isomorphism test: the same number of atoms.\<close>

definition same_size :: "chemgraph \<Rightarrow> chemgraph \<Rightarrow> bool" where
  "same_size g1 g2 = (length (vertices g1) = length (vertices g2))"

text \<open>A carbon and a hydrogen with no bond between them.\<close>

definition lone_store :: store where
  "lone_store = store_of [mk_atom elC 0, mk_atom elH 0]"

definition lone_graph :: chemgraph where
  "lone_graph = \<lparr>vertices = [0, 1], edges = [(0, []), (1, [])], implicitHydrogensFlag = False\<rparr>"

text \<open>A carbon with an empty entry and a hydrogen with no entry at all.\<close>

definition unlisted_graph :: chemgraph where
  "unlisted_graph = \<lparr>vertices = [0, 1], edges = [(0, [])], implicitHydrogensFlag = False\<rparr>"

text \<open>A hydrogen bonded to two carbons; the flag chooses the order of its two neighbours.\<close>

definition bridge_store :: store where
  "bridge_store = store_of [mk_atom elC 0, mk_atom elC 0, mk_atom elH 0]"

definition bridge_graph :: "bool \<Rightarrow> chemgraph" where
  "bridge_graph swapped = \<lparr>vertices = [0, 1, 2],
     edges = [(0, [(2, single_bond)]), (1, [(2, single_bond)]),
              (2, if swapped then [(1, single_bond), (0, single_bond)]
                  else [(0, single_bond), (1, single_bond)])],
     implicitHydrogensFlag = False\<rparr>"

text \<open>
  Foreign molecules: a lone carbon with spin-multiplicity code 4, the same with code 0, and two carbons joined by
  a double bond, the first with one hydrogen.
\<close>

definition quartet :: obmol where
  "quartet = \<lparr>obatoms = [\<lparr>AtomicNum = 6, SpinMultiplicity = 4, FormalCharge = 0\<rparr>],
     GetBond = (\<lambda>i j. None)\<rparr>"

definition singlet :: obmol where
  "singlet = \<lparr>obatoms = [\<lparr>AtomicNum = 6, SpinMultiplicity = 0, FormalCharge = 0\<rparr>],
     GetBond = (\<lambda>i j. None)\<rparr>"

definition double_bond :: obbond where
  "double_bond = \<lparr>IsSingle = False, IsDouble = True, IsTriple = False, IsAromatic = False\<rparr>"

definition single_obbond :: obbond where
  "single_obbond = \<lparr>IsSingle = True, IsDouble = False, IsTriple = False, IsAromatic = False\<rparr>"

definition vinyl :: obmol where
  "vinyl = \<lparr>obatoms = [\<lparr>AtomicNum = 6, SpinMultiplicity = 2, FormalCharge = 0\<rparr>,
                        \<lparr>AtomicNum = 6, SpinMultiplicity = 3, FormalCharge = 0\<rparr>,
                        \<lparr>AtomicNum = 1, SpinMultiplicity = 0, FormalCharge = 0\<rparr>],
     GetBond = (\<lambda>i j. if (i, j) = (1, 0) then Some double_bond
                        else if (i, j) = (2, 0) then Some single_obbond else None)\<rparr>"

text \<open>
  Two forms whose flag says "implicit" and whose atoms, once expanded, are all hydrogen: a
  graph with no atoms left, and a hydrogen atom carrying one implicit hydrogen.
\<close>

definition stripped_graph :: chemgraph where
  "stripped_graph = \<lparr>vertices = [], edges = [], implicitHydrogensFlag = True\<rparr>"

definition hh_store :: store where
  "hh_store = store_of [mk_atom elH 1]"

definition hh_graph :: chemgraph where
  "hh_graph = \<lparr>vertices = [0], edges = [(0, [])], implicitHydrogensFlag = True\<rparr>"

text \<open>Two bonded carbons with three implicit hydrogens each.\<close>

definition c2h6_store :: store where
  "c2h6_store = store_of [mk_atom elC 3, mk_atom elC 3]"

definition c2h6_graph :: chemgraph where
  "c2h6_graph = \<lparr>vertices = [0, 1], edges = [(0, [(1, single_bond)]), (1, [(0, single_bond)])],
     implicitHydrogensFlag = True\<rparr>"

section \<open>Properties\<close>

subsection \<open>Atom construction\<close>

text \<open>
  C9, as amended. Constructing an atom from a string fails exactly when the string is not
  bound in the namespace of the element module; the failure is the KeyError of the lookup, and
  no atom is built. A string that is bound there is accepted with whatever it is bound to,
  an element or not: nothing checks that the symbol names an element.
\<close>

theorem Atom_init_unresolved:
  "(isl (Atom_init reg (Symbol nm) re sm ih ch lb) \<longleftrightarrow> reg nm = None) \<and>
   (reg nm = None \<longrightarrow> Atom_init reg (Symbol nm) re sm ih ch lb = Inl KeyError) \<and>
   (\<forall>v. reg nm = Some v \<longrightarrow>
      Atom_init reg (Symbol nm) re sm ih ch lb =
        Inr \<lparr>element = Some v, radicalElectrons = re, spinMultiplicity = sm,
             implicitHydrogens = ih, charge = ch, label = lb\<rparr>)"
  by (cases "reg nm") (simp_all add: Atom_init_def)

theorem Atom_init_unresolved_witness:
  "example_reg ''Xx'' = None \<and>
   Atom_init example_reg (Symbol ''Xx'') 0 1 0 0 '''' = Inl KeyError \<and>
   example_reg ''C'' = Some (AnElement elC) \<and>
   Atom_init example_reg (Symbol ''C'') 0 1 4 0 '''' = Inr (mk_atom elC 4)"
proof -
  have h: "example_reg ''Xx'' = None" by (simp add: example_reg_def)
  have c: "example_reg ''C'' = Some (AnElement elC)" by (simp add: example_reg_def)
  show ?thesis
    using h c Atom_init_unresolved [of example_reg "''Xx''" 0 1 0 0 "''''"]
      Atom_init_unresolved [of example_reg "''C''" 0 1 4 0 "''''"]
    by (simp add: mk_atom_def)
qed

text \<open>
  C9 as stated fails: \<^verbatim>\<open>getElement\<close> and \<^verbatim>\<open>__name__\<close> are names of the element module and
  symbols of no element, and the construction returns an atom for each; its element is no
  element, and reading its atomic number raises AttributeError.
\<close>

theorem non_element_name_accepted:
  "example_reg ''getElement'' = Some (NotAnElement ''function getElement'') \<and>
   example_reg ''__name__'' = Some (NotAnElement ''str element'') \<and>
   (case Atom_init example_reg (Symbol ''getElement'') 0 1 0 0 '''' of
      Inl e \<Rightarrow> False
    | Inr a \<Rightarrow> element a = Some (NotAnElement ''function getElement'') \<and> \<not> has_element a \<and>
        atom_number a = Inl AttributeError) \<and>
   (case Atom_init example_reg (Symbol ''__name__'') 0 1 0 0 '''' of
      Inl e \<Rightarrow> False
    | Inr a \<Rightarrow> element a = Some (NotAnElement ''str element'') \<and> \<not> has_element a \<and>
        atom_number a = Inl AttributeError)"
  by (simp add: example_reg_def Atom_init_def has_element_def atom_number_def)

subsection \<open>The all-hydrogen guard\<close>

lemma hydrogen_flags_all:
  "\<forall>a\<in>set vs. isHydrogen (cells s a) = Inr True \<Longrightarrow>
     hydrogen_flags s vs = Inr (replicate (length vs) True)"
  by (induction vs) auto

text \<open>
  C8. On a graph whose vertices are all hydrogen atoms, \<^verbatim>\<open>makeHydrogensImplicit\<close>
  returns with the store and the graph as they were: no atom is stripped, so the number of
  atoms and the number of bonds are unchanged.
\<close>

theorem makeHydrogensImplicit_all_hydrogen:
  assumes "\<forall>a\<in>set (vertices g). isHydrogen (cells s a) = Inr True"
  shows "makeHydrogensImplicit (s, g) = Inr (s, g)"
  using hydrogen_flags_all [OF assms]
  by (simp add: makeHydrogensImplicit_def list_all_iff)

theorem makeHydrogensImplicit_all_hydrogen_witness:
  "makeHydrogensImplicit (h2_store, h2_graph) = Inr (h2_store, h2_graph) \<and>
   length (vertices h2_graph) = 2"
proof -
  have h: "\<forall>a\<in>set (vertices h2_graph). isHydrogen (cells h2_store a) = Inr True"
    by (simp add: h2_graph_def h2_store_def store_of_def isHydrogen_def atom_number_def
        mk_atom_def elH_def)
  show ?thesis
    using makeHydrogensImplicit_all_hydrogen [OF h] by (simp add: h2_graph_def)
qed

subsection \<open>Isomorphism of molecules\<close>

lemma iso_any2_iff: "iso_any2 giso g1 gs = (\<exists>g2\<in>set gs. giso g1 g2)"
  by (induction gs) auto

lemma iso_any1_iff: "iso_any1 giso gs1 gs2 = (\<exists>g1\<in>set gs1. \<exists>g2\<in>set gs2. giso g1 g2)"
  by (induction gs1) (auto simp: iso_any2_iff)

lemma iso_graph_iff: "iso_graph giso gs1 g = (\<exists>g1\<in>set gs1. giso g1 g)"
  by (induction gs1) auto

text \<open>
  C6. \<^verbatim>\<open>Molecule.isIsomorphic(other)\<close> is true exactly when some resonance form of the
  molecule is isomorphic to some resonance form of \<open>other\<close> (a molecule), or to \<open>other\<close>
  itself (a chemical graph); for an argument of any other type it is false.
\<close>

theorem isIsomorphic_existential:
  "isIsomorphic giso self (MoleculeObj m) =
     (\<exists>g1\<in>set (resonanceForms self). \<exists>g2\<in>set (resonanceForms m). giso g1 g2) \<and>
   isIsomorphic giso self (ChemGraphObj g) = (\<exists>g1\<in>set (resonanceForms self). giso g1 g) \<and>
   isIsomorphic giso self OtherObj = False"
  by (simp add: isIsomorphic_def iso_any1_iff iso_graph_iff)

theorem isIsomorphic_existential_witness:
  "isIsomorphic same_size \<lparr>resonanceForms = [ch4_graph, ch_graph]\<rparr>
     (MoleculeObj \<lparr>resonanceForms = [h2_graph]\<rparr>) =
     (same_size ch4_graph h2_graph \<or> same_size ch_graph h2_graph) \<and>
   isIsomorphic same_size \<lparr>resonanceForms = [ch4_graph, ch_graph]\<rparr> (ChemGraphObj h2_graph) \<and>
   \<not> isIsomorphic same_size \<lparr>resonanceForms = [ch4_graph]\<rparr> (ChemGraphObj h2_graph) \<and>
   \<not> isIsomorphic same_size \<lparr>resonanceForms = [ch4_graph, ch_graph]\<rparr> OtherObj"
  using isIsomorphic_existential
          [of same_size "\<lparr>resonanceForms = [ch4_graph, ch_graph]\<rparr>" "\<lparr>resonanceForms = [h2_graph]\<rparr>" h2_graph]
        isIsomorphic_existential
          [of same_size "\<lparr>resonanceForms = [ch4_graph]\<rparr>" "\<lparr>resonanceForms = [h2_graph]\<rparr>" h2_graph]
  by (simp add: same_size_def ch4_graph_def ch_graph_def h2_graph_def)

subsection \<open>Copies\<close>

text \<open>
  C10. Whatever the copy of the generic graph returns, \<^verbatim>\<open>ChemGraph.copy\<close> builds its
  result with \<^verbatim>\<open>ChemGraph(g.vertices, g.edges)\<close>, whose representation flag is \<^verbatim>\<open>False\<close>:
  the flag of the source is not carried over, for a shallow and for a deep copy.
\<close>

theorem ChemGraph_copy_flag:
  "ChemGraph_copy gcopy deep (s, g) = Inr (s', g') \<Longrightarrow> implicitHydrogensFlag g' = False"
  by (auto simp: ChemGraph_copy_def ChemGraph_init_def Graph_init_def split: sum.splits prod.splits)

theorem ChemGraph_copy_flag_witness:
  "implicitHydrogensFlag ch4_graph \<and>
   (\<exists>s' g'. ChemGraph_copy Graph_copy False (ch4_store, ch4_graph) = Inr (s', g') \<and>
      \<not> implicitHydrogensFlag g' \<and> vertices g' = [0]) \<and>
   (\<exists>s' g'. ChemGraph_copy Graph_copy True (ch4_store, ch4_graph) = Inr (s', g') \<and>
      \<not> implicitHydrogensFlag g' \<and> vertices g' = [1])"
proof -
  obtain s1 g1 where c1: "ChemGraph_copy Graph_copy False (ch4_store, ch4_graph) = Inr (s1, g1)"
    by (simp add: ChemGraph_copy_def Graph_copy_def)
  obtain s2 g2 where c2: "ChemGraph_copy Graph_copy True (ch4_store, ch4_graph) = Inr (s2, g2)"
    by (cases "copy_atoms (vertices ch4_graph) ch4_store")
       (simp add: ChemGraph_copy_def Graph_copy_def Let_def)
  have v1: "vertices g1 = [0]"
    using c1 by (auto simp: ChemGraph_copy_def Graph_copy_def ChemGraph_init_def Graph_init_def
        ch4_graph_def)
  have v2: "vertices g2 = [1]"
    using c2 by (auto simp: ChemGraph_copy_def Graph_copy_def ChemGraph_init_def Graph_init_def
        ch4_graph_def ch4_store_def store_of_def alloc_def Let_def split: prod.splits)
  show ?thesis
    using ChemGraph_copy_flag [OF c1] ChemGraph_copy_flag [OF c2] c1 c2 v1 v2
    by (simp add: ch4_graph_def)
qed

subsection \<open>Hydrogens of degree other than one\<close>

lemma isHydrogen_add_implicit [simp]:
  "isHydrogen (cells (add_implicit n d s) a) = isHydrogen (cells s a)"
  by (simp add: add_implicit_def isHydrogen_def atom_number_def)

lemma element_add_implicit [simp]:
  "element (cells (add_implicit n d s) a) = element (cells s a)"
  by (simp add: add_implicit_def)

lemma has_element_add_implicit [simp]:
  "has_element (cells (add_implicit n d s) a) = has_element (cells s a)"
  by (simp add: has_element_def)

lemma isHydrogen_total:
  "has_element x \<Longrightarrow> \<exists>b. isHydrogen x = Inr b"
  by (auto simp: isHydrogen_def atom_number_def has_element_def split: option.splits elemval.splits)

lemma first_unbonded_add_implicit [simp]:
  "first_unbonded (add_implicit n d s) E vs = first_unbonded s E vs"
  by (simp add: first_unbonded_def)

lemma count_hydrogens_fails_iff:
  assumes "\<forall>a\<in>set vs. has_element (cells s a)"
  shows "isl (count_hydrogens E vs s hs) \<longleftrightarrow>
     (\<exists>h\<in>set vs. isHydrogen (cells s h) = Inr True \<and> degree E h = 0)"
  using assms
proof (induction vs arbitrary: s hs)
  case Nil
  then show ?case by simp
next
  case (Cons a vs)
  from Cons.prems have "\<exists>b. isHydrogen (cells s a) = Inr b"
    using isHydrogen_total by fastforce
  then consider (heavy) "isHydrogen (cells s a) = Inr False"
    | (hyd) "isHydrogen (cells s a) = Inr True"
    by (metis (full_types))
  then show ?case
  proof cases
    case heavy
    with Cons show ?thesis by auto
  next
    case hyd
    show ?thesis
    proof (cases "map_of E a")
      case None
      with hyd show ?thesis by (simp add: degree_def neighbours_def)
    next
      case (Some d)
      show ?thesis
      proof (cases d)
        case Nil
        with hyd Some show ?thesis by (simp add: degree_def neighbours_def)
      next
        case (Cons p rest)
        obtain n bd where p: "p = (n, bd)" by (cases p)
        have deg: "degree E a \<noteq> 0"
          using Some Cons by (simp add: degree_def neighbours_def)
        have "isl (count_hydrogens E vs (add_implicit n 1 s) (hs @ [a])) \<longleftrightarrow>
          (\<exists>h\<in>set vs. isHydrogen (cells (add_implicit n 1 s) h) = Inr True \<and> degree E h = 0)"
          using Cons.prems by (intro Cons.IH) simp
        with hyd Some Cons p deg show ?thesis by auto
      qed
    qed
  qed
qed

lemma count_hydrogens_error:
  assumes "\<forall>a\<in>set vs. has_element (cells s a)"
  shows "first_unbonded s E vs = Some h \<Longrightarrow>
     count_hydrogens E vs s hs = Inl (if map_of E h = None then KeyError else IndexError)"
  using assms
proof (induction vs arbitrary: s hs)
  case Nil
  then show ?case by (simp add: first_unbonded_def)
next
  case (Cons a vs)
  from Cons.prems have "\<exists>b. isHydrogen (cells s a) = Inr b"
    using isHydrogen_total by fastforce
  then consider (heavy) "isHydrogen (cells s a) = Inr False"
    | (hyd) "isHydrogen (cells s a) = Inr True"
    by (metis (full_types))
  then show ?case
  proof cases
    case heavy
    with Cons.prems(1) have "first_unbonded s E vs = Some h"
      by (simp add: first_unbonded_def)
    from Cons.IH [OF this] Cons.prems(2) heavy show ?thesis by simp
  next
    case hyd
    show ?thesis
    proof (cases "map_of E a")
      case None
      with hyd Cons.prems(1) have "h = a"
        by (simp add: first_unbonded_def degree_def neighbours_def)
      with hyd None show ?thesis by simp
    next
      case (Some d)
      show ?thesis
      proof (cases d)
        case Nil
        with hyd Some Cons.prems(1) have "h = a"
          by (simp add: first_unbonded_def degree_def neighbours_def)
        with hyd Some Nil show ?thesis by simp
      next
        case (Cons p rest)
        obtain n bd where p: "p = (n, bd)" by (cases p)
        from Some Cons have "degree E a \<noteq> 0"
          by (simp add: degree_def neighbours_def)
        with Cons.prems(1) have "first_unbonded (add_implicit n 1 s) E vs = Some h"
          by (simp add: first_unbonded_def)
        moreover from Cons.prems(2) have "\<forall>a\<in>set vs. has_element (cells (add_implicit n 1 s) a)"
          by simp
        ultimately have "count_hydrogens E vs (add_implicit n 1 s) (hs @ [a]) =
            Inl (if map_of E h = None then KeyError else IndexError)"
          by (rule Cons.IH)
        with hyd Some Cons p show ?thesis by simp
      qed
    qed
  qed
qed

lemma hydrogen_flags_total:
  "\<forall>a\<in>set vs. has_element (cells s a) \<Longrightarrow>
     hydrogen_flags s vs = Inr (map (\<lambda>a. isHydrogen (cells s a) = Inr True) vs)"
proof (induction vs)
  case Nil
  then show ?case by simp
next
  case (Cons a vs)
  then obtain b where "isHydrogen (cells s a) = Inr b"
    using isHydrogen_total by fastforce
  with Cons show ?case by auto
qed

text \<open>
  C2, as amended. On a graph that is not all hydrogen and whose atoms all have an element,
  \<^verbatim>\<open>makeHydrogensImplicit\<close> raises exactly when some hydrogen vertex has degree 0: such an
  atom is never skipped. The exception is that of the first such hydrogen in the atom list,
  KeyError when it has no entry in the bonds, IndexError when its entry is empty. A hydrogen
  vertex of degree two or more is not rejected.
\<close>

theorem makeHydrogensImplicit_raises_iff:
  assumes "\<forall>a\<in>set (vertices g). has_element (cells s a)"
    and "\<exists>a\<in>set (vertices g). isHydrogen (cells s a) = Inr False"
  shows "(isl (makeHydrogensImplicit (s, g)) \<longleftrightarrow>
           (\<exists>h\<in>set (vertices g). isHydrogen (cells s h) = Inr True \<and> degree (edges g) h = 0)) \<and>
         (\<forall>h. first_unbonded s (edges g) (vertices g) = Some h \<longrightarrow>
            makeHydrogensImplicit (s, g) =
              Inl (if map_of (edges g) h = None then KeyError else IndexError))"
proof -
  from assms(2) obtain a where a: "a \<in> set (vertices g)" "isHydrogen (cells s a) = Inr False"
    by blast
  from a(2) have "isHydrogen (cells s a) \<noteq> Inr True" by simp
  with a(1) have "\<not> list_all (\<lambda>b. b) (map (\<lambda>a. isHydrogen (cells s a) = Inr True) (vertices g))"
    by (auto simp: list_all_iff)
  then have run: "makeHydrogensImplicit (s, g) =
      (case count_hydrogens (edges g) (vertices g) s [] of
         Inl e \<Rightarrow> Inl e
       | Inr (s', hs) \<Rightarrow> Inr (s', (remove_atoms hs g)\<lparr>implicitHydrogensFlag := True\<rparr>))"
    using hydrogen_flags_total [OF assms(1)]
    by (simp add: makeHydrogensImplicit_def)
  then have "isl (makeHydrogensImplicit (s, g)) \<longleftrightarrow>
      isl (count_hydrogens (edges g) (vertices g) s [])"
    by (auto split: sum.splits)
  then have "isl (makeHydrogensImplicit (s, g)) \<longleftrightarrow>
      (\<exists>h\<in>set (vertices g). isHydrogen (cells s h) = Inr True \<and> degree (edges g) h = 0)"
    using count_hydrogens_fails_iff [OF assms(1)] by simp
  moreover have "\<forall>h. first_unbonded s (edges g) (vertices g) = Some h \<longrightarrow>
      makeHydrogensImplicit (s, g) = Inl (if map_of (edges g) h = None then KeyError else IndexError)"
    using count_hydrogens_error [OF assms(1), of "edges g" _ "[]"] run by simp
  ultimately show ?thesis by blast
qed

lemmas implicit_eval = makeHydrogensImplicit_def bridge_graph_def bridge_store_def store_of_def
      isHydrogen_def atom_number_def mk_atom_def elH_def elC_def add_implicit_def removeVertex_def
      degree_def neighbours_def lone_graph_def lone_store_def unlisted_graph_def has_element_def
      first_unbonded_def

text \<open>
  C2 as stated fails: a hydrogen bonded to two carbons has degree 2, the graph is not all
  hydrogen, and the operation returns, with the hydrogen removed and the counter of the
  neighbour listed first incremented, whichever of the two is listed first.
\<close>

theorem bridging_hydrogen_not_rejected:
  "isHydrogen (cells bridge_store 2) = Inr True \<and>
   degree (edges (bridge_graph False)) 2 = 2 \<and> degree (edges (bridge_graph True)) 2 = 2 \<and>
   isHydrogen (cells bridge_store 0) = Inr False \<and>
   (case makeHydrogensImplicit (bridge_store, bridge_graph False) of
      Inl e \<Rightarrow> False
    | Inr (s', g') \<Rightarrow> vertices g' = [0, 1] \<and> implicitHydrogens (cells s' 0) = 1 \<and>
        implicitHydrogens (cells s' 1) = 0) \<and>
   (case makeHydrogensImplicit (bridge_store, bridge_graph True) of
      Inl e \<Rightarrow> False
    | Inr (s', g') \<Rightarrow> vertices g' = [0, 1] \<and> implicitHydrogens (cells s' 0) = 0 \<and>
        implicitHydrogens (cells s' 1) = 1)"
  by (simp add: implicit_eval)

theorem makeHydrogensImplicit_raises_iff_witness:
  "degree (edges lone_graph) 1 = 0 \<and> map_of (edges lone_graph) 1 = Some [] \<and>
   makeHydrogensImplicit (lone_store, lone_graph) = Inl IndexError \<and>
   degree (edges unlisted_graph) 1 = 0 \<and> map_of (edges unlisted_graph) 1 = None \<and>
   makeHydrogensImplicit (lone_store, unlisted_graph) = Inl KeyError \<and>
   degree (edges (bridge_graph False)) 2 = 2 \<and>
   \<not> isl (makeHydrogensImplicit (bridge_store, bridge_graph False))"
proof -
  have a1: "\<forall>a\<in>set (vertices lone_graph). has_element (cells lone_store a)"
    by (simp add: implicit_eval)
  have a2: "\<exists>a\<in>set (vertices lone_graph). isHydrogen (cells lone_store a) = Inr False"
    by (simp add: implicit_eval)
  have a3: "first_unbonded lone_store (edges lone_graph) (vertices lone_graph) = Some 1"
    by (simp add: implicit_eval)
  have u1: "\<forall>a\<in>set (vertices unlisted_graph). has_element (cells lone_store a)"
    by (simp add: implicit_eval)
  have u2: "\<exists>a\<in>set (vertices unlisted_graph). isHydrogen (cells lone_store a) = Inr False"
    by (simp add: implicit_eval)
  have u3: "first_unbonded lone_store (edges unlisted_graph) (vertices unlisted_graph) = Some 1"
    by (simp add: implicit_eval)
  have b1: "\<forall>a\<in>set (vertices (bridge_graph False)). has_element (cells bridge_store a)"
    by (simp add: implicit_eval)
  have b2: "\<exists>a\<in>set (vertices (bridge_graph False)). isHydrogen (cells bridge_store a) = Inr False"
    by (simp add: implicit_eval)
  from makeHydrogensImplicit_raises_iff [OF a1 a2] a3
  have l: "makeHydrogensImplicit (lone_store, lone_graph) =
      Inl (if map_of (edges lone_graph) 1 = None then KeyError else IndexError)"
    by blast
  from makeHydrogensImplicit_raises_iff [OF u1 u2] u3
  have u: "makeHydrogensImplicit (lone_store, unlisted_graph) =
      Inl (if map_of (edges unlisted_graph) 1 = None then KeyError else IndexError)"
    by blast
  from makeHydrogensImplicit_raises_iff [OF b1 b2]
  have b: "\<not> isl (makeHydrogensImplicit (bridge_store, bridge_graph False))"
    by (simp add: implicit_eval)
  from l u b show ?thesis
    by (simp add: lone_graph_def unlisted_graph_def bridge_graph_def degree_def neighbours_def)
qed

subsection \<open>Symmetric bond storage\<close>

lemma stored_bond_ensure_entry [simp]:
  "stored_bond (ensure_entry a E) x y = stored_bond E x y"
  by (simp add: stored_bond_def ensure_entry_def update_conv')

lemma stored_bond_put_bond:
  "stored_bond (put_bond a b bd E) x y =
     (if x = a then (if y = b then Some bd else stored_bond E a y) else stored_bond E x y)"
  by (simp add: stored_bond_def put_bond_def neighbours_def update_conv' split: option.splits)

lemma stored_bond_store_bond:
  "stored_bond (store_bond a1 a2 bd E) x y =
     (if (x = a1 \<and> y = a2) \<or> (x = a2 \<and> y = a1) then Some bd else stored_bond E x y)"
  by (simp add: store_bond_def stored_bond_put_bond)

lemma symmetric_store_bond:
  "symmetric_bonds E \<Longrightarrow> symmetric_bonds (store_bond a1 a2 bd E)"
  by (auto simp: symmetric_bonds_def stored_bond_store_bond)

lemma stored_bond_removeVertex:
  "stored_bond (edges (removeVertex v g)) x y =
     (if x = v \<or> y = v then None else stored_bond (edges g) x y)"
  by (auto simp: stored_bond_def removeVertex_def map_of_map delete_conv' split: option.splits)

lemma symmetric_removeVertex:
  "symmetric_bonds (edges g) \<Longrightarrow> symmetric_bonds (edges (removeVertex v g))"
  by (auto simp: symmetric_bonds_def stored_bond_removeVertex)

lemma symmetric_remove_atoms:
  "symmetric_bonds (edges g) \<Longrightarrow> symmetric_bonds (edges (remove_atoms hs g))"
  by (induction hs arbitrary: g) (auto simp: symmetric_removeVertex)

lemma symmetric_makeHydrogensImplicit:
  "makeHydrogensImplicit (s, g) = Inr (s', g') \<Longrightarrow> symmetric_bonds (edges g) \<Longrightarrow>
     symmetric_bonds (edges g')"
  by (auto simp: makeHydrogensImplicit_def symmetric_remove_atoms split: sum.splits if_splits)

lemma symmetric_import_bonds:
  "import_bonds ob i js g = Inr g' \<Longrightarrow> symmetric_bonds (edges g) \<Longrightarrow> symmetric_bonds (edges g')"
proof (induction js arbitrary: g)
  case Nil
  then show ?case by simp
next
  case (Cons j js)
  then show ?case
    by (auto simp: symmetric_store_bond split: option.splits sum.splits)
qed

lemma symmetric_import_atoms:
  "import_atoms reg ge ob i oas (s, g) = Inr (s', g') \<Longrightarrow> symmetric_bonds (edges g) \<Longrightarrow>
     symmetric_bonds (edges g')"
proof (induction oas arbitrary: i s g)
  case Nil
  then show ?case by simp
next
  case (Cons oa oas)
  from Cons.prems(1) obtain el a g1 where
    ib: "import_bonds ob i [0..<i] (g\<lparr>vertices := vertices g @ [fst (alloc a s)]\<rparr>) = Inr g1"
    and rest: "import_atoms reg ge ob (Suc i) oas (snd (alloc a s), g1) = Inr (s', g')"
    by (auto split: sum.splits)
  from symmetric_import_bonds [OF ib] Cons.prems(2) have "symmetric_bonds (edges g1)" by simp
  with Cons.IH [OF rest] show ?case .
qed

text \<open>
  C7. In the graph that \<^verbatim>\<open>fromOBMol\<close> produces, a bond stored under \<open>(a, b)\<close> is stored
  under \<open>(b, a)\<close> too, and it is the same bond.
\<close>

theorem fromOBMol_symmetric:
  assumes "fromOBMol reg ge addH ob s = Inr (s', m)"
    and "g \<in> set (resonanceForms m)"
    and "stored_bond (edges g) a b = Some bd"
  shows "stored_bond (edges g) b a = Some bd"
proof -
  from assms(1) obtain s1 g1 where
    imp: "import_atoms reg ge (addH ob) 0 (obatoms (addH ob)) (s, ChemGraph_init None None) = Inr (s1, g1)"
    and mk: "makeHydrogensImplicit (s1, g1) = Inr (s', g)"
    using assms(2) by (auto simp: fromOBMol_def Let_def split: sum.splits)
  have "symmetric_bonds (edges (ChemGraph_init None None))"
    by (simp add: symmetric_bonds_def ChemGraph_init_def Graph_init_def stored_bond_def)
  from symmetric_import_atoms [OF imp this] have "symmetric_bonds (edges g1)" .
  from symmetric_makeHydrogensImplicit [OF mk this] have "symmetric_bonds (edges g)" .
  with assms(3) show ?thesis by (simp add: symmetric_bonds_def)
qed


lemmas import_eval = fromOBMol_def vinyl_def quartet_def complete_def example_getElement_def
  example_reg_def elH_def elC_def Atom_init_def decode_spin_def bond_order_def Bond_init_def
  list_get_def alloc_def empty_store_def ChemGraph_init_def Graph_init_def store_bond_def
  put_bond_def ensure_entry_def neighbours_def double_bond_def single_obbond_def
  makeHydrogensImplicit_def isHydrogen_def atom_number_def add_implicit_def removeVertex_def
  stored_bond_def

lemma vinyl_import:
  "\<exists>s' g. fromOBMol example_reg example_getElement complete vinyl empty_store =
       Inr (s', \<lparr>resonanceForms = [g]\<rparr>) \<and>
     vertices g = [0, 1] \<and> stored_bond (edges g) 0 1 = Some \<lparr>order = 2\<rparr>"
  by (simp add: import_eval)

theorem fromOBMol_symmetric_witness:
  "\<exists>s' g. fromOBMol example_reg example_getElement complete vinyl empty_store =
       Inr (s', \<lparr>resonanceForms = [g]\<rparr>) \<and>
     vertices g = [0, 1] \<and> stored_bond (edges g) 0 1 = Some \<lparr>order = 2\<rparr> \<and>
     stored_bond (edges g) 1 0 = Some \<lparr>order = 2\<rparr>"
proof -
  from vinyl_import obtain s' g where
    r: "fromOBMol example_reg example_getElement complete vinyl empty_store =
       Inr (s', \<lparr>resonanceForms = [g]\<rparr>)"
    and v: "vertices g = [0, 1]" and b: "stored_bond (edges g) 0 1 = Some \<lparr>order = 2\<rparr>"
    by blast
  have "g \<in> set (resonanceForms \<lparr>resonanceForms = [g]\<rparr>)" by simp
  from fromOBMol_symmetric [OF r this b] r v b show ?thesis by blast
qed


subsection \<open>The spin table of the import\<close>

lemma import_bonds_vertices:
  "import_bonds ob i js g = Inr g' \<Longrightarrow> vertices g' = vertices g"
proof (induction js arbitrary: g)
  case Nil
  then show ?case by simp
next
  case (Cons j js)
  then show ?case by (fastforce split: option.splits sum.splits)
qed

lemma import_atoms_cells:
  "import_atoms reg ge ob i oas (s, g) = Inr (s', g') \<Longrightarrow>
     next_addr s' = next_addr s + length oas \<and>
     (\<forall>x < next_addr s. cells s' x = cells s x) \<and>
     (\<forall>k < length oas. decoded (cells s' (next_addr s + k)) = decode_spin (SpinMultiplicity (oas ! k)))"
proof (induction oas arbitrary: i s g)
  case Nil
  then show ?case by simp
next
  case (Cons oa oas)
  from Cons.prems obtain el a g1 where
    el: "ge (AtomicNum oa) = Inr el"
    and a: "Atom_init reg (Elem (Some (AnElement el))) (fst (decode_spin (SpinMultiplicity oa)))
              (snd (decode_spin (SpinMultiplicity oa))) 0 (FormalCharge oa) '''' = Inr a"
    and rest: "import_atoms reg ge ob (Suc i) oas (snd (alloc a s), g1) = Inr (s', g')"
    by (auto split: sum.splits)
  let ?s1 = "snd (alloc a s)"
  from a have da: "decoded a = decode_spin (SpinMultiplicity oa)"
    by (auto simp: Atom_init_def decoded_def)
  have n1: "next_addr ?s1 = Suc (next_addr s)" by (simp add: alloc_def)
  have c1: "cells ?s1 (next_addr s) = a" by (simp add: alloc_def)
  have c2: "\<And>x. x < next_addr s \<Longrightarrow> cells ?s1 x = cells s x" by (simp add: alloc_def)
  from Cons.IH [OF rest] have
    ih1: "next_addr s' = next_addr ?s1 + length oas"
    and ih2: "\<And>x. x < next_addr ?s1 \<Longrightarrow> cells s' x = cells ?s1 x"
    and ih3: "\<And>k. k < length oas \<Longrightarrow>
       decoded (cells s' (next_addr ?s1 + k)) = decode_spin (SpinMultiplicity (oas ! k))"
    by auto
  have "next_addr s' = next_addr s + length (oa # oas)" using ih1 n1 by simp
  moreover have "\<forall>x < next_addr s. cells s' x = cells s x"
    using ih2 c2 n1 by simp
  moreover have "\<forall>k < length (oa # oas).
      decoded (cells s' (next_addr s + k)) = decode_spin (SpinMultiplicity ((oa # oas) ! k))"
  proof (intro allI impI)
    fix k assume k: "k < length (oa # oas)"
    show "decoded (cells s' (next_addr s + k)) = decode_spin (SpinMultiplicity ((oa # oas) ! k))"
    proof (cases k)
      case 0
      then show ?thesis using ih2 [of "next_addr s"] n1 c1 da by simp
    next
      case (Suc k')
      then show ?thesis using ih3 [of k'] k n1 by simp
    qed
  qed
  ultimately show ?case by blast
qed

lemma decoded_add_implicit [simp]:
  "decoded (cells (add_implicit n d s) x) = decoded (cells s x)"
  by (simp add: add_implicit_def decoded_def)

lemma count_hydrogens_decoded:
  "count_hydrogens E vs s hs = Inr (s', hs') \<Longrightarrow> decoded (cells s' x) = decoded (cells s x)"
proof (induction vs arbitrary: s hs)
  case Nil
  then show ?case by simp
next
  case (Cons a vs)
  then show ?case
    by (fastforce split: sum.splits bool.splits option.splits list.splits)
qed

lemma makeHydrogensImplicit_decoded:
  "makeHydrogensImplicit (s, g) = Inr (s', g') \<Longrightarrow> decoded (cells s' x) = decoded (cells s x)"
  by (auto simp: makeHydrogensImplicit_def split: sum.splits if_splits dest: count_hydrogens_decoded)

lemma fromOBMol_decoded:
  assumes "fromOBMol reg ge addH ob s = Inr (s', m)"
    and "k < length (obatoms (addH ob))"
    and "c = SpinMultiplicity (obatoms (addH ob) ! k)"
    and "a = cells s' (next_addr s + k)"
  shows "(c = 0 \<longrightarrow> radicalElectrons a = 0 \<and> spinMultiplicity a = 1) \<and>
         (c = 1 \<longrightarrow> radicalElectrons a = 2 \<and> spinMultiplicity a = 1) \<and>
         (c = 2 \<longrightarrow> radicalElectrons a = 1 \<and> spinMultiplicity a = 2) \<and>
         (c = 3 \<longrightarrow> radicalElectrons a = 2 \<and> spinMultiplicity a = 3) \<and>
         (c \<notin> {0, 1, 2, 3} \<longrightarrow> radicalElectrons a = 0 \<and> spinMultiplicity a = c)"
proof -
  from assms(1) obtain s1 g1 g2 where
    imp: "import_atoms reg ge (addH ob) 0 (obatoms (addH ob)) (s, ChemGraph_init None None) = Inr (s1, g1)"
    and mk: "makeHydrogensImplicit (s1, g1) = Inr (s', g2)"
    by (auto simp: fromOBMol_def Let_def split: sum.splits)
  from import_atoms_cells [OF imp] assms(2,3)
  have "decoded (cells s1 (next_addr s + k)) = decode_spin c" by simp
  with makeHydrogensImplicit_decoded [OF mk] assms(4) have "decoded a = decode_spin c" by simp
  then show ?thesis by (auto simp: decoded_def decode_spin_def split: if_splits)
qed

text \<open>
  C1 as stated fails: a foreign atom with code 4 is imported without any error.
\<close>

theorem quartet_not_rejected:
  "SpinMultiplicity (obatoms (complete quartet) ! 0) = 4 \<and>
   (case fromOBMol example_reg example_getElement complete quartet empty_store of
      Inl e \<Rightarrow> False
    | Inr (s', m) \<Rightarrow> map vertices (resonanceForms m) = [[0]] \<and>
        radicalElectrons (cells s' 0) = 0 \<and> spinMultiplicity (cells s' 0) = 4)"
  by (simp add: import_eval)

lemma vinyl_import':
  "\<exists>s' m. fromOBMol example_reg example_getElement complete vinyl empty_store = Inr (s', m)"
  using vinyl_import by blast

subsection \<open>Export: one call per bond\<close>


lemma set_update_subset: "set (AList.update k v al) \<subseteq> insert (k, v) (set al)"
  by (induction al) auto

lemma one_entry_update:
  "one_entry_per_key E \<Longrightarrow> distinct (map fst d) \<Longrightarrow> one_entry_per_key (AList.update a d E)"
  using set_update_subset [of a d E]
  by (auto simp: one_entry_per_key_def list_all_iff distinct_update)

lemma one_entry_neighbours:
  "one_entry_per_key E \<Longrightarrow> distinct (map fst (neighbours E a))"
  by (auto simp: one_entry_per_key_def neighbours_def list_all_iff split: option.splits
      dest!: map_of_SomeD)

lemma one_entry_ensure_entry:
  "one_entry_per_key E \<Longrightarrow> one_entry_per_key (ensure_entry a E)"
  by (simp add: ensure_entry_def one_entry_update)

lemma one_entry_put_bond:
  "one_entry_per_key E \<Longrightarrow> one_entry_per_key (put_bond a b bd E)"
  by (simp add: put_bond_def one_entry_update one_entry_neighbours distinct_update)

lemma one_entry_store_bond:
  "one_entry_per_key E \<Longrightarrow> one_entry_per_key (store_bond a b bd E)"
  by (simp add: store_bond_def one_entry_put_bond one_entry_ensure_entry)

lemma one_entry_add_hydrogens:
  "one_entry_per_key (edges g) \<Longrightarrow> one_entry_per_key (edges (add_hydrogens hs g))"
  by (induction hs g rule: add_hydrogens.induct)
     (simp_all add: addEdge_def addVertex_def one_entry_store_bond one_entry_update)

lemma one_entry_makeHydrogensExplicit:
  "makeHydrogensExplicit reg (s, g) = Inr (s1, g1) \<Longrightarrow> one_entry_per_key (edges g) \<Longrightarrow>
     one_entry_per_key (edges g1)"
  by (auto simp: makeHydrogensExplicit_def one_entry_add_hydrogens split: sum.splits)


lemma list_index_inj:
  "list_index xs x = Inr i \<Longrightarrow> list_index xs y = Inr i \<Longrightarrow> x = y"
  by (induction xs arbitrary: i) (auto split: if_splits sum.splits)

lemma is_bond_call_AddBond:
  "i < j \<Longrightarrow> i1 < i2 \<Longrightarrow>
     is_bond_call (int i + 1) (int j + 1) (AddBond (int i1 + 1) (int i2 + 1) n) = (i1 = i \<and> i2 = j)"
  by (auto simp: is_bond_call_def)

lemma bonds_of_atom_between:
  assumes "list_index atoms a = Inr i" and "list_index atoms b = Inr j" and "i < j"
  shows "bonds_of_atom atoms a1 d = Inr cs \<Longrightarrow> distinct (map fst d) \<Longrightarrow>
     filter (is_bond_call (int i + 1) (int j + 1)) cs =
       (if a1 = a then (case map_of d b of None \<Rightarrow> []
                        | Some bd \<Rightarrow> [AddBond (int i + 1) (int j + 1) (order bd)])
        else [])"
proof (induction d arbitrary: cs)
  case Nil
  then show ?case by simp
next
  case (Cons p rest)
  obtain a2 bd2 where p: "p = (a2, bd2)" by (cases p)
  from Cons.prems(1) p obtain i1 i2 cs' where
    i1: "list_index atoms a1 = Inr i1" and i2: "list_index atoms a2 = Inr i2"
    and tl: "bonds_of_atom atoms a1 rest = Inr cs'"
    and cs: "cs = (if i1 < i2 then [AddBond (int i1 + 1) (int i2 + 1) (order bd2)] else []) @ cs'"
    by (auto split: sum.splits)
  from Cons.prems(2) p have dr: "distinct (map fst rest)" and fresh: "a2 \<notin> fst ` set rest"
    by auto
  note ih = Cons.IH [OF tl dr]
  have eq1: "i1 = i \<longleftrightarrow> a1 = a"
    using i1 assms(1) list_index_inj by fastforce
  have eq2: "i2 = j \<longleftrightarrow> a2 = b"
    using i2 assms(2) list_index_inj by fastforce
  from fresh have none: "a2 = b \<Longrightarrow> map_of rest b = None"
    by (simp add: map_of_eq_None_iff)
  show ?case
  proof (cases "i1 < i2")
    case True
    then show ?thesis
      using ih cs p eq1 eq2 none assms(3)
      by (auto simp: is_bond_call_AddBond)
  next
    case False
    then show ?thesis
      using ih cs p eq1 eq2 none assms(3) i1 i2 assms(1,2)
      by auto
  qed
qed

lemma all_bonds_between:
  assumes "list_index atoms a = Inr i" and "list_index atoms b = Inr j" and "i < j"
  shows "all_bonds atoms E = Inr cs \<Longrightarrow> one_entry_per_key E \<Longrightarrow>
     filter (is_bond_call (int i + 1) (int j + 1)) cs =
       (case stored_bond E a b of None \<Rightarrow> []
        | Some bd \<Rightarrow> [AddBond (int i + 1) (int j + 1) (order bd)])"
proof (induction E arbitrary: cs)
  case Nil
  then show ?case by (simp add: stored_bond_def)
next
  case (Cons p rest)
  obtain a1 d where p: "p = (a1, d)" by (cases p)
  from Cons.prems(1) p obtain c1 c2 where
    hd: "bonds_of_atom atoms a1 d = Inr c1" and tl: "all_bonds atoms rest = Inr c2"
    and cs: "cs = c1 @ c2"
    by (auto split: sum.splits)
  from Cons.prems(2) p have dd: "distinct (map fst d)" and wr: "one_entry_per_key rest"
    and fresh: "a1 \<notin> fst ` set rest"
    by (auto simp: one_entry_per_key_def)
  note ih = Cons.IH [OF tl wr]
  note h = bonds_of_atom_between [OF assms hd dd]
  from fresh have "a1 = a \<Longrightarrow> map_of rest a = None"
    by (auto simp: map_of_eq_None_iff)
  then have none: "a1 = a \<Longrightarrow> stored_bond rest a b = None"
    by (simp add: stored_bond_def)
  show ?case
    using ih h cs p none by (auto simp: stored_bond_def split: option.splits)
qed

lemma new_atoms_no_bond:
  "new_atoms s vs = Inr cs \<Longrightarrow> filter (is_bond_call x y) cs = []"
  by (induction vs arbitrary: cs) (auto simp: is_bond_call_def split: sum.splits)

text \<open>
  C4. Let \<open>a\<close> and \<open>b\<close> be atoms of the exported form (hydrogens explicit, atoms sorted)
  with a bond stored under \<open>(a, b)\<close> and under \<open>(b, a)\<close>, and let the canonical index of
  \<open>a\<close> be the smaller one. Then among all the calls of the export exactly one adds a bond
  between the two atoms: the one for the ordering \<open>(a, b)\<close>, with the order of the bond
  stored there. No stored bond is emitted twice.
\<close>

theorem toOBMol_one_call_per_pair:
  assumes ret: "toOBMol reg srt (s, m) = Inr (s', m', cs)"
    and forms: "resonanceForms m = g # rest"
    and wf: "one_entry_per_key (edges g)"
    and ex: "export_form reg srt (s, m) = Inr (s1, g2)"
    and ab: "stored_bond (edges g2) a b = Some bd"
    and ba: "stored_bond (edges g2) b a = Some bd'"
    and ia: "list_index (vertices g2) a = Inr i"
    and ib: "list_index (vertices g2) b = Inr j"
    and lt: "i < j"
  shows "filter (is_bond_call (int i + 1) (int j + 1)) cs =
           [AddBond (int i + 1) (int j + 1) (order bd)]"
proof -
  from ex forms obtain g1 where
    expl: "makeHydrogensExplicit reg (s, g) = Inr (s1, g1)" and g2: "g2 = sortAtoms srt s1 g1"
    by (auto simp: export_form_def split: sum.splits)
  from one_entry_makeHydrogensExplicit [OF expl wf] g2
  have wf2: "one_entry_per_key (edges g2)" by (simp add: sortAtoms_def)
  from ret forms ex obtain cs1 cs2 where
    na: "new_atoms s1 (vertices g2) = Inr cs1"
    and allb: "all_bonds (vertices g2) (edges g2) = Inr cs2"
    and cs: "cs = cs1 @ cs2 @ [AssignSpinMultiplicity True]"
    by (auto simp: toOBMol_def Let_def split: sum.splits if_splits)
  from all_bonds_between [OF ia ib lt allb wf2] ab new_atoms_no_bond [OF na] cs
  show ?thesis by (simp add: is_bond_call_def)
qed


lemmas export_eval = toOBMol_def export_form_def makeHydrogensExplicit_def reversed_def
  sortAtoms_def ch4_graph_def ch4_store_def ch_graph_def ch_store_def store_of_def mk_atom_def
  elH_def elC_def example_reg_def Atom_init_def Bond_init_def alloc_def add_implicit_def
  addVertex_def addEdge_def store_bond_def put_bond_def ensure_entry_def neighbours_def
  atom_number_def isHydrogen_def makeHydrogensImplicit_def removeVertex_def stored_bond_def
  single_bond_def no_atom_def

lemma ch4_export_form:
  "\<exists>s1 g2. export_form example_reg reversed (ch4_store, \<lparr>resonanceForms = [ch4_graph]\<rparr>) = Inr (s1, g2) \<and>
     vertices g2 = [4, 3, 2, 1, 0] \<and>
     stored_bond (edges g2) 1 0 = Some single_bond \<and> stored_bond (edges g2) 0 1 = Some single_bond \<and>
     list_index (vertices g2) 1 = Inr 3 \<and> list_index (vertices g2) 0 = Inr 4"
  by (simp add: export_eval)

lemma ch4_toOBMol:
  "\<exists>s' g' cs. toOBMol example_reg reversed (ch4_store, \<lparr>resonanceForms = [ch4_graph]\<rparr>) =
      Inr (s', \<lparr>resonanceForms = [g']\<rparr>, cs) \<and> vertices g' = [0] \<and> implicitHydrogens (cells s' 0) = 4"
  by (simp add: export_eval)


theorem toOBMol_one_call_per_pair_witness:
  "\<exists>s' m' cs. toOBMol example_reg reversed (ch4_store, \<lparr>resonanceForms = [ch4_graph]\<rparr>) =
      Inr (s', m', cs) \<and>
     filter (is_bond_call 4 5) cs = [AddBond 4 5 1]"
proof -
  from ch4_toOBMol obtain s' g' cs where
    ret: "toOBMol example_reg reversed (ch4_store, \<lparr>resonanceForms = [ch4_graph]\<rparr>) =
      Inr (s', \<lparr>resonanceForms = [g']\<rparr>, cs)"
    by blast
  from ch4_export_form obtain s1 g2 where
    ex: "export_form example_reg reversed (ch4_store, \<lparr>resonanceForms = [ch4_graph]\<rparr>) = Inr (s1, g2)"
    and ab: "stored_bond (edges g2) 1 0 = Some single_bond"
    and ba: "stored_bond (edges g2) 0 1 = Some single_bond"
    and ia: "list_index (vertices g2) 1 = Inr 3" and ib: "list_index (vertices g2) 0 = Inr 4"
    by blast
  have forms: "resonanceForms \<lparr>resonanceForms = [ch4_graph]\<rparr> = ch4_graph # []" by simp
  have wf: "one_entry_per_key (edges ch4_graph)"
    by (simp add: one_entry_per_key_def ch4_graph_def)
  have lt: "(3::nat) < 4" by simp
  from toOBMol_one_call_per_pair [OF ret forms wf ex ab ba ia ib lt] ret
  show ?thesis by (auto simp: single_bond_def)
qed

subsection \<open>Export: the representation flag and the atom order\<close>

lemma hydrogen_flags_eq:
  "hydrogen_flags s vs = Inr fs \<Longrightarrow> list_all (\<lambda>b. b) fs = all_hydrogen s vs"
  by (induction vs arbitrary: fs) (auto simp: all_hydrogen_def split: sum.splits)

lemma subseq_remove1: "subseq (remove1 x xs) xs"
  by (induction xs) auto

lemma subseq_remove_atoms: "subseq (vertices (remove_atoms hs g)) (vertices g)"
proof (induction hs arbitrary: g)
  case Nil
  then show ?case by simp
next
  case (Cons h hs)
  have "subseq (vertices (removeVertex h g)) (vertices g)"
    by (simp add: removeVertex_def subseq_remove1)
  with Cons [of "removeVertex h g"] show ?case
    using subseq_order.order_trans by fastforce
qed

lemma makeHydrogensImplicit_flag:
  "makeHydrogensImplicit (s, g) = Inr (s', g') \<Longrightarrow>
     implicitHydrogensFlag g' = (implicitHydrogensFlag g \<or> \<not> all_hydrogen s (vertices g)) \<and>
     subseq (vertices g') (vertices g)"
  by (auto simp: makeHydrogensImplicit_def subseq_remove_atoms split: sum.splits if_splits
      dest: hydrogen_flags_eq)

lemma makeHydrogensExplicit_flag:
  "makeHydrogensExplicit reg (s, g) = Inr (s', g') \<Longrightarrow> \<not> implicitHydrogensFlag g'"
  by (auto simp: makeHydrogensExplicit_def split: sum.splits)

text \<open>
  C5, as amended. When \<^verbatim>\<open>toOBMol\<close> returns, the flag of the exported form is its pre-call
  value if that was \<^verbatim>\<open>False\<close>, and if it was \<^verbatim>\<open>True\<close> and the expanded form has an atom
  that is not a hydrogen; a form flagged \<^verbatim>\<open>True\<close> whose expanded atoms are all hydrogen
  is left with the flag \<^verbatim>\<open>False\<close>. The canonical order stays: the atom list is the
  sorted list when the flag was \<^verbatim>\<open>False\<close>, and a subsequence of it (the hydrogens removed
  again) when it was \<^verbatim>\<open>True\<close>.
\<close>

theorem toOBMol_flag_and_order:
  assumes ret: "toOBMol reg srt (s, m) = Inr (s', m', cs)"
    and forms: "resonanceForms m = g # rest"
    and expl: "makeHydrogensExplicit reg (s, g) = Inr (s1, g1)"
  shows "\<exists>g'. resonanceForms m' = g' # rest \<and>
     implicitHydrogensFlag g' =
       (implicitHydrogensFlag g \<and> \<not> all_hydrogen s1 (srt s1 g1)) \<and>
     subseq (vertices g') (srt s1 g1) \<and>
     (\<not> implicitHydrogensFlag g \<longrightarrow> vertices g' = srt s1 g1)"
proof -
  let ?g2 = "sortAtoms srt s1 g1"
  have ex: "export_form reg srt (s, m) = Inr (s1, ?g2)"
    using forms expl by (simp add: export_form_def)
  have f2: "\<not> implicitHydrogensFlag ?g2"
    using makeHydrogensExplicit_flag [OF expl] by (simp add: sortAtoms_def)
  have v2: "vertices ?g2 = srt s1 g1" by (simp add: sortAtoms_def)
  show ?thesis
  proof (cases "implicitHydrogensFlag g")
    case True
    with ret forms ex obtain g3 where
      mk: "makeHydrogensImplicit (s1, ?g2) = Inr (s', g3)"
      and m': "m' = m\<lparr>resonanceForms := g3 # rest\<rparr>"
      by (auto simp: toOBMol_def Let_def split: sum.splits)
    from makeHydrogensImplicit_flag [OF mk] f2 v2 m' True show ?thesis by simp
  next
    case False
    with ret forms ex have "m' = m\<lparr>resonanceForms := ?g2 # rest\<rparr>"
      by (auto simp: toOBMol_def Let_def split: sum.splits)
    with False f2 v2 show ?thesis by simp
  qed
qed

text \<open>
  C5 as stated fails: exported from a form flagged \<^verbatim>\<open>True\<close> whose expanded atoms are all
  hydrogen, the form comes back flagged \<^verbatim>\<open>False\<close>.
\<close>

theorem toOBMol_flag_not_restored:
  "implicitHydrogensFlag stripped_graph \<and>
   (case toOBMol example_reg reversed (empty_store, \<lparr>resonanceForms = [stripped_graph]\<rparr>) of
      Inl e \<Rightarrow> False
    | Inr (s', m', cs) \<Rightarrow> map implicitHydrogensFlag (resonanceForms m') = [False]) \<and>
   implicitHydrogensFlag hh_graph \<and>
   (case toOBMol example_reg reversed (hh_store, \<lparr>resonanceForms = [hh_graph]\<rparr>) of
      Inl e \<Rightarrow> False
    | Inr (s', m', cs) \<Rightarrow> map implicitHydrogensFlag (resonanceForms m') = [False] \<and>
        map vertices (resonanceForms m') = [[1, 0]])"
  by (simp add: export_eval stripped_graph_def hh_graph_def hh_store_def empty_store_def)

lemma ch4_explicit:
  "\<exists>s1 g1. makeHydrogensExplicit example_reg (ch4_store, ch4_graph) = Inr (s1, g1) \<and>
      reversed s1 g1 = [4, 3, 2, 1, 0] \<and> \<not> all_hydrogen s1 (reversed s1 g1)"
  by (simp add: export_eval all_hydrogen_def)

lemma ch_explicit:
  "\<exists>s1 g1. makeHydrogensExplicit example_reg (ch_store, ch_graph) = Inr (s1, g1) \<and>
      reversed s1 g1 = [1, 0]"
  by (simp add: export_eval)

lemma ch_toOBMol:
  "\<exists>s' m' cs. toOBMol example_reg reversed (ch_store, \<lparr>resonanceForms = [ch_graph]\<rparr>) =
      Inr (s', m', cs)"
  by (simp add: export_eval)

theorem toOBMol_flag_and_order_witness:
  "(\<exists>s' g' cs. toOBMol example_reg reversed (ch4_store, \<lparr>resonanceForms = [ch4_graph]\<rparr>) =
      Inr (s', \<lparr>resonanceForms = [g']\<rparr>, cs) \<and>
      implicitHydrogensFlag ch4_graph \<and> implicitHydrogensFlag g' \<and> subseq (vertices g') [4, 3, 2, 1, 0]) \<and>
   (\<exists>s' g' cs. toOBMol example_reg reversed (ch_store, \<lparr>resonanceForms = [ch_graph]\<rparr>) =
      Inr (s', \<lparr>resonanceForms = [g']\<rparr>, cs) \<and>
      \<not> implicitHydrogensFlag ch_graph \<and> \<not> implicitHydrogensFlag g' \<and>
      vertices ch_graph = [0, 1] \<and> vertices g' = [1, 0])"
proof (intro conjI)
  from ch4_toOBMol obtain s' g' cs where
    r1: "toOBMol example_reg reversed (ch4_store, \<lparr>resonanceForms = [ch4_graph]\<rparr>) =
      Inr (s', \<lparr>resonanceForms = [g']\<rparr>, cs)"
    by blast
  from ch4_explicit obtain s1 g1 where
    e1: "makeHydrogensExplicit example_reg (ch4_store, ch4_graph) = Inr (s1, g1)"
    and o1: "reversed s1 g1 = [4, 3, 2, 1, 0]" and h1: "\<not> all_hydrogen s1 (reversed s1 g1)"
    by blast
  have f1: "resonanceForms \<lparr>resonanceForms = [ch4_graph]\<rparr> = ch4_graph # []" by simp
  have t1: "implicitHydrogensFlag ch4_graph" by (simp add: ch4_graph_def)
  from toOBMol_flag_and_order [OF r1 f1 e1] obtain g3 where
    g3: "resonanceForms \<lparr>resonanceForms = [g']\<rparr> = g3 # []"
    and fl: "implicitHydrogensFlag g3 =
       (implicitHydrogensFlag ch4_graph \<and> \<not> all_hydrogen s1 (reversed s1 g1))"
    and sq: "subseq (vertices g3) (reversed s1 g1)"
    by blast
  from g3 have "g3 = g'" by simp
  with fl sq t1 h1 o1 have "implicitHydrogensFlag g'" "subseq (vertices g') [4, 3, 2, 1, 0]"
    by simp_all
  with r1 t1 show "\<exists>s' g' cs. toOBMol example_reg reversed (ch4_store, \<lparr>resonanceForms = [ch4_graph]\<rparr>) =
      Inr (s', \<lparr>resonanceForms = [g']\<rparr>, cs) \<and>
      implicitHydrogensFlag ch4_graph \<and> implicitHydrogensFlag g' \<and> subseq (vertices g') [4, 3, 2, 1, 0]"
    by (intro exI conjI)
next
  from ch_toOBMol obtain s'' m'' cs' where
    r2: "toOBMol example_reg reversed (ch_store, \<lparr>resonanceForms = [ch_graph]\<rparr>) =
      Inr (s'', m'', cs')"
    by blast
  from ch_explicit obtain s2 g2 where
    e2: "makeHydrogensExplicit example_reg (ch_store, ch_graph) = Inr (s2, g2)"
    and o2: "reversed s2 g2 = [1, 0]"
    by blast
  have f2: "resonanceForms \<lparr>resonanceForms = [ch_graph]\<rparr> = ch_graph # []" by simp
  have t2: "\<not> implicitHydrogensFlag ch_graph" "vertices ch_graph = [0, 1]"
    by (simp_all add: ch_graph_def)
  from toOBMol_flag_and_order [OF r2 f2 e2] obtain g'' where
    p: "resonanceForms m'' = g'' # []"
    and fl: "implicitHydrogensFlag g'' =
       (implicitHydrogensFlag ch_graph \<and> \<not> all_hydrogen s2 (reversed s2 g2))"
    and vs: "\<not> implicitHydrogensFlag ch_graph \<longrightarrow> vertices g'' = reversed s2 g2"
    by blast
  from p have m: "m'' = \<lparr>resonanceForms = [g'']\<rparr>" by (cases m'') simp
  from fl vs t2 o2 have "\<not> implicitHydrogensFlag g''" "vertices g'' = [1, 0]" by simp_all
  with r2 [unfolded m] t2
  show "\<exists>s' g' cs. toOBMol example_reg reversed (ch_store, \<lparr>resonanceForms = [ch_graph]\<rparr>) =
      Inr (s', \<lparr>resonanceForms = [g']\<rparr>, cs) \<and>
      \<not> implicitHydrogensFlag ch_graph \<and> \<not> implicitHydrogensFlag g' \<and>
      vertices ch_graph = [0, 1] \<and> vertices g' = [1, 0]"
    by (intro exI conjI)
qed

subsection \<open>Expanding and compressing the hydrogens\<close>

declare plan_hydrogens.simps [simp del]


lemma planned_refl: "planned eH A s s []"
  by (auto simp: planned_def)

lemma planned_mono: "planned eH A s s' new \<Longrightarrow> A \<subseteq> B \<Longrightarrow> planned eH B s s' new"
  by (fastforce simp: planned_def)

lemma planned_next: "planned eH A s s' new \<Longrightarrow> next_addr s \<le> next_addr s'"
  by (simp add: planned_def)

lemma plannedD1: "planned eH A s s1 n1 \<Longrightarrow> next_addr s1 = next_addr s + length n1"
  unfolding planned_def by (elim conjE)

lemma plannedD2: "planned eH A s s1 n1 \<Longrightarrow> map fst n1 = [next_addr s..<next_addr s1]"
  unfolding planned_def by (elim conjE)

lemma plannedD3: "planned eH A s s1 n1 \<Longrightarrow> (h, a, b) \<in> set n1 \<Longrightarrow> a \<in> A \<and> b = Bond_init 1"
  unfolding planned_def by blast

lemma plannedD4: "planned eH A s s1 n1 \<Longrightarrow> x < next_addr s \<Longrightarrow>
    element (cells s1 x) = element (cells s x) \<and>
          implicitHydrogens (cells s1 x) =
            implicitHydrogens (cells s x) - int (count_list (map (\<lambda>(h, a, b). a) n1) x)"
  unfolding planned_def by blast

lemma plannedD5: "planned eH A s s1 n1 \<Longrightarrow> next_addr s \<le> x \<Longrightarrow> x < next_addr s1 \<Longrightarrow>
    element (cells s1 x) = Some (AnElement eH)"
  unfolding planned_def by blast


lemma planned_trans:
  assumes p1: "planned eH A s s1 n1" and p2: "planned eH A s1 s2 n2"
  shows "planned eH A s s2 (n1 @ n2)"
  unfolding planned_def
proof (intro conjI allI impI)
  note a1 = plannedD1 [OF p1] and a2 = plannedD1 [OF p2]
  show "next_addr s2 = next_addr s + length (n1 @ n2)"
    by (simp only: a1 a2 length_append add.assoc)
  have "[next_addr s..<next_addr s1 + length n2] =
      [next_addr s..<next_addr s1] @ [next_addr s1..<next_addr s1 + length n2]"
    by (rule upt_add_eq_append) (simp only: a1 le_add1)
  then show "map fst (n1 @ n2) = [next_addr s..<next_addr s2]"
    by (simp only: map_append plannedD2 [OF p1] plannedD2 [OF p2] a2)
  show "\<forall>(h, a, b)\<in>set (n1 @ n2). a \<in> A \<and> b = Bond_init 1"
    using plannedD3 [OF p1] plannedD3 [OF p2] by auto
next
  fix x assume x: "x < next_addr s"
  then have x1: "x < next_addr s1" by (simp only: plannedD1 [OF p1] trans_less_add1)
  from plannedD4 [OF p1 x] plannedD4 [OF p2 x1]
  show "element (cells s2 x) = element (cells s x)" by simp
  from plannedD4 [OF p1 x] plannedD4 [OF p2 x1]
  show "implicitHydrogens (cells s2 x) =
          implicitHydrogens (cells s x) - int (count_list (map (\<lambda>(h, a, b). a) (n1 @ n2)) x)"
    by simp
next
  fix x assume x: "next_addr s \<le> x \<and> x < next_addr s2"
  show "element (cells s2 x) = Some (AnElement eH)"
  proof (cases "x < next_addr s1")
    case True
    from plannedD4 [OF p2 True] plannedD5 [OF p1 _ True] x show ?thesis by simp
  next
    case False
    then have "next_addr s1 \<le> x" by simp
    from plannedD5 [OF p2 this] x show ?thesis by simp
  qed
qed


lemma planned_step:
  assumes "a < next_addr s" and "element H = Some (AnElement eH)"
  shows "planned eH {a} s (add_implicit a (- 1) (snd (alloc H s))) [(fst (alloc H s), a, Bond_init 1)]"
  using assms by (auto simp: planned_def add_implicit_def alloc_def)

lemma plan_hydrogens_planned:
  "reg ''H'' = Some (AnElement eH) \<Longrightarrow> a < next_addr s \<Longrightarrow>
     \<exists>s' new. plan_hydrogens reg a s hs = Inr (s', hs @ new) \<and> planned eH {a} s s' new"
proof (induction reg a s hs rule: plan_hydrogens.induct)
  case (1 reg a s hs)
  show ?case
  proof (cases "0 < implicitHydrogens (cells s a)")
    case False
    then show ?thesis
      using planned_refl [of eH "{a}" s] by (simp add: plan_hydrogens.simps [of reg a s hs])
  next
    case True
    define H where "H = \<lparr>element = Some (AnElement eH), radicalElectrons = 0, spinMultiplicity = 1,
      implicitHydrogens = 0, charge = 0, label = ''''\<rparr>"
    have mk: "Atom_init reg (Symbol ''H'') 0 1 0 0 '''' = Inr H"
      using "1.prems"(1) by (simp add: Atom_init_def H_def)
    have eH: "element H = Some (AnElement eH)" by (simp add: H_def)
    let ?s1 = "add_implicit a (- 1) (snd (alloc H s))"
    let ?t = "(fst (alloc H s), a, Bond_init 1)"
    have unfold: "plan_hydrogens reg a s hs = plan_hydrogens reg a ?s1 (hs @ [?t])"
      using True mk by (simp add: plan_hydrogens.simps [of reg a s hs])
    have "a < next_addr ?s1"
      using "1.prems"(2) by (simp add: add_implicit_def alloc_def)
    from "1.IH" [OF True mk "1.prems"(1) this] obtain s' new where
      r: "plan_hydrogens reg a ?s1 (hs @ [?t]) = Inr (s', (hs @ [?t]) @ new)"
      and p: "planned eH {a} ?s1 s' new"
      by blast
    from planned_trans [OF planned_step [OF "1.prems"(2) eH] p]
    have "planned eH {a} s s' ([?t] @ new)" .
    with r unfold show ?thesis by auto
  qed
qed

lemma plan_all_planned:
  "reg ''H'' = Some (AnElement eH) \<Longrightarrow> \<forall>a\<in>set vs. a < next_addr s \<Longrightarrow>
     \<exists>s' new. plan_all reg vs s hs = Inr (s', hs @ new) \<and> planned eH (set vs) s s' new"
proof (induction vs arbitrary: s hs)
  case Nil
  then show ?case using planned_refl [of eH "{}" s] by simp
next
  case (Cons a vs)
  from Cons.prems have "a < next_addr s" by simp
  from plan_hydrogens_planned [of reg eH a s hs, OF Cons.prems(1) this] obtain s1 n1 where
    r1: "plan_hydrogens reg a s hs = Inr (s1, hs @ n1)" and p1: "planned eH {a} s s1 n1"
    by blast
  from planned_next [OF p1] Cons.prems(2) have "\<forall>a\<in>set vs. a < next_addr s1" by auto
  from Cons.IH [OF Cons.prems(1) this, of "hs @ n1"] obtain s2 n2 where
    r2: "plan_all reg vs s1 (hs @ n1) = Inr (s2, (hs @ n1) @ n2)"
    and p2: "planned eH (set vs) s1 s2 n2"
    by blast
  have "planned eH (set (a # vs)) s s2 (n1 @ n2)"
    by (rule planned_trans [OF planned_mono [OF p1] planned_mono [OF p2]]) auto
  with r1 r2 show ?case by auto
qed


lemma delete_as_filter: "AList.delete v xs = filter (\<lambda>(u, d). u \<notin> {v}) xs"
  by (induction xs) auto

lemma removeVertex_edges: "edges (removeVertex v g) = strip_atoms {v} (edges g)"
  by (simp add: removeVertex_def strip_atoms_def delete_as_filter)

lemma filter_keys_twice:
  "filter (\<lambda>(k, b). k \<notin> A) (filter (\<lambda>(k, b). k \<notin> B) d) = filter (\<lambda>(k, b). k \<notin> A \<union> B) d"
  by (induction d) auto

lemma strip_atoms_twice: "strip_atoms A (strip_atoms B E) = strip_atoms (A \<union> B) E"
proof (induction E)
  case Nil
  then show ?case by (simp add: strip_atoms_def)
next
  case (Cons p E)
  obtain a d where p: "p = (a, d)" by (cases p)
  from Cons p filter_keys_twice [of A B d] show ?case
    by (simp add: strip_atoms_def)
qed

lemma strip_atoms_empty: "strip_atoms {} E = E"
  by (induction E) (auto simp: strip_atoms_def)

lemma remove_atoms_edges: "edges (remove_atoms hs g) = strip_atoms (set hs) (edges g)"
proof (induction hs arbitrary: g)
  case Nil
  then show ?case by (simp add: strip_atoms_empty)
next
  case (Cons h hs)
  have "set hs \<union> {h} = set (h # hs)" by auto
  then show ?case
    by (simp add: Cons removeVertex_edges strip_atoms_twice)
qed

lemma remove_atoms_vertices:
  "vertices g = vs @ hs \<Longrightarrow> set hs \<inter> set vs = {} \<Longrightarrow> vertices (remove_atoms hs g) = vs"
proof (induction hs arbitrary: g)
  case Nil
  then show ?case by simp
next
  case (Cons h hs)
  from Cons.prems have "vertices (removeVertex h g) = vs @ hs"
    by (simp add: removeVertex_def remove1_append)
  moreover from Cons.prems have "set hs \<inter> set vs = {}" by auto
  ultimately show ?case using Cons.IH [of "removeVertex h g"] by simp
qed


lemma filter_update_in:
  "k \<in> H \<Longrightarrow> filter (\<lambda>(u, d). u \<notin> H) (AList.update k v al) = filter (\<lambda>(u, d). u \<notin> H) al"
  by (induction al) auto

lemma strip_update_in:
  "k \<in> H \<Longrightarrow> strip_atoms H (AList.update k v E) = strip_atoms H E"
  by (simp add: strip_atoms_def filter_update_in)

lemma count_strip_update_out:
  "a \<notin> H \<Longrightarrow> filter (\<lambda>(k, b). k \<notin> H) d' = filter (\<lambda>(k, b). k \<notin> H) (neighbours E a) \<Longrightarrow>
     count_bonds (strip_atoms H (AList.update a d' E)) = count_bonds (strip_atoms H E)"
proof (induction E)
  case Nil
  then show ?case by (simp add: strip_atoms_def count_bonds_def neighbours_def)
next
  case (Cons p E)
  obtain k v where p: "p = (k, v)" by (cases p)
  show ?case
  proof (cases "k = a")
    case True
    with Cons.prems p show ?thesis
      by (simp add: strip_atoms_def count_bonds_def neighbours_def)
  next
    case False
    with Cons.prems p have "filter (\<lambda>(k, b). k \<notin> H) d' = filter (\<lambda>(k, b). k \<notin> H) (neighbours E a)"
      by (simp add: neighbours_def)
    from Cons.IH [OF Cons.prems(1) this] False p show ?thesis
      by (simp add: strip_atoms_def count_bonds_def)
  qed
qed

lemma count_strip_ensure_entry:
  "count_bonds (strip_atoms H (ensure_entry a E)) = count_bonds (strip_atoms H E)"
proof (cases "a \<in> H")
  case True
  then show ?thesis by (simp add: ensure_entry_def strip_update_in)
next
  case False
  show ?thesis
  proof (cases "map_of E a")
    case None
    then have "filter (\<lambda>(k, b). k \<notin> H) [] = filter (\<lambda>(k, b). k \<notin> H) (neighbours E a)"
      by (simp add: neighbours_def)
    from count_strip_update_out [OF False this] None show ?thesis
      by (simp add: ensure_entry_def)
  next
    case (Some d)
    then show ?thesis by (simp add: ensure_entry_def)
  qed
qed

lemma count_strip_put_bond:
  assumes "a \<in> H \<or> b \<in> H"
  shows "count_bonds (strip_atoms H (put_bond a b bd E)) = count_bonds (strip_atoms H E)"
proof (cases "a \<in> H")
  case True
  then show ?thesis by (simp add: put_bond_def strip_update_in)
next
  case False
  with assms have "b \<in> H" by simp
  then have "filter (\<lambda>(k, b). k \<notin> H) (AList.update b bd (neighbours E a)) =
      filter (\<lambda>(k, b). k \<notin> H) (neighbours E a)"
    by (rule filter_update_in)
  from count_strip_update_out [OF False this] show ?thesis by (simp add: put_bond_def)
qed

lemma count_strip_store_bond:
  "h \<in> H \<Longrightarrow> count_bonds (strip_atoms H (store_bond h a bd E)) = count_bonds (strip_atoms H E)"
  by (simp add: store_bond_def count_strip_put_bond count_strip_ensure_entry)

lemma count_strip_add_hydrogens:
  "fst ` set new \<subseteq> H \<Longrightarrow>
     count_bonds (strip_atoms H (edges (add_hydrogens new g))) = count_bonds (strip_atoms H (edges g))"
proof (induction new g rule: add_hydrogens.induct)
  case (1 g)
  then show ?case by simp
next
  case (2 h a b hs g)
  then have h: "h \<in> H" and rest: "fst ` set hs \<subseteq> H" by auto
  from "2.IH" [OF rest] h show ?case
    by (simp add: addEdge_def addVertex_def count_strip_store_bond strip_update_in)
qed

lemma strip_atoms_foreign:
  "\<forall>(a, d)\<in>set E. a \<notin> H \<and> (\<forall>(b, bd)\<in>set d. b \<notin> H) \<Longrightarrow> strip_atoms H E = E"
proof (induction E)
  case Nil
  then show ?case by (simp add: strip_atoms_def)
next
  case (Cons p E)
  obtain a d where p: "p = (a, d)" by (cases p)
  from Cons.prems p have "filter (\<lambda>(k, b). k \<notin> H) d = d"
    by (auto intro!: filter_True)
  with Cons p show ?case by (auto simp: strip_atoms_def)
qed


lemma add_hydrogens_vertices:
  "vertices (add_hydrogens new g) = vertices g @ map fst new"
  by (induction new g rule: add_hydrogens.induct) (simp_all add: addEdge_def addVertex_def)

lemma map_of_ensure_entry:
  "map_of (ensure_entry a E) x = (if x = a \<and> map_of E a = None then Some [] else map_of E x)"
  by (simp add: ensure_entry_def update_conv')

lemma map_of_put_bond:
  "map_of (put_bond a b bd E) x =
     (if x = a then Some (AList.update b bd (neighbours E a)) else map_of E x)"
  by (simp add: put_bond_def update_conv')

lemma map_of_store_bond_other:
  "x \<noteq> a1 \<Longrightarrow> x \<noteq> a2 \<Longrightarrow> map_of (store_bond a1 a2 bd E) x = map_of E x"
  by (simp add: store_bond_def map_of_put_bond map_of_ensure_entry)

lemma add_hydrogen_other:
  "x \<noteq> h \<Longrightarrow> x \<noteq> a \<Longrightarrow>
     map_of (edges (addEdge h a b (addVertex h g))) x = map_of (edges g) x"
  by (simp add: addEdge_def addVertex_def map_of_store_bond_other update_conv')

lemma add_hydrogen_entry:
  "a \<noteq> h \<Longrightarrow> map_of (edges (addEdge h a b (addVertex h g))) h = Some [(a, b)]"
  by (simp add: addEdge_def addVertex_def store_bond_def map_of_put_bond map_of_ensure_entry
      neighbours_def update_conv')

lemma add_hydrogens_other:
  "x \<notin> fst ` set new \<Longrightarrow> x \<notin> (\<lambda>(h, a, b). a) ` set new \<Longrightarrow>
     map_of (edges (add_hydrogens new g)) x = map_of (edges g) x"
proof (induction new g rule: add_hydrogens.induct)
  case (1 g)
  then show ?case by simp
next
  case (2 h a b hs g)
  then have "x \<noteq> h" "x \<noteq> a" "x \<notin> fst ` set hs" "x \<notin> (\<lambda>(h, a, b). a) ` set hs"
    by auto
  with "2.IH" show ?case by (simp add: add_hydrogen_other)
qed

lemma add_hydrogens_entry:
  "(h, a, b) \<in> set new \<Longrightarrow> distinct (map fst new) \<Longrightarrow>
     (\<lambda>(h, a, b). a) ` set new \<inter> fst ` set new = {} \<Longrightarrow>
     map_of (edges (add_hydrogens new g)) h = Some [(a, b)]"
proof (induction new g rule: add_hydrogens.induct)
  case (1 g)
  then show ?case by simp
next
  case (2 h0 a0 b0 hs g)
  let ?g = "addEdge h0 a0 b0 (addVertex h0 g)"
  from "2.prems"(2) have fresh: "h0 \<notin> fst ` set hs" and dist: "distinct (map fst hs)" by auto
  from "2.prems"(3) have tg: "(\<lambda>(h, a, b). a) ` set hs \<inter> fst ` set hs = {}"
    and h0t: "h0 \<notin> (\<lambda>(h, a, b). a) ` set hs" and a0: "a0 \<noteq> h0"
    by auto
  show ?case
  proof (cases "(h, a, b) = (h0, a0, b0)")
    case True
    from add_hydrogens_other [OF fresh h0t, of ?g] add_hydrogen_entry [OF a0, of b0 g] True
    show ?thesis by simp
  next
    case False
    with "2.prems"(1) have "(h, a, b) \<in> set hs" by auto
    from "2.IH" [OF this dist tg] show ?thesis by simp
  qed
qed


lemma count_hydrogens_append:
  "count_hydrogens E (xs @ ys) s acc =
     (case count_hydrogens E xs s acc of
        Inl e \<Rightarrow> Inl e
      | Inr (s', acc') \<Rightarrow> count_hydrogens E ys s' acc')"
  by (induction xs arbitrary: s acc)
     (auto split: sum.splits bool.splits option.splits list.splits)

lemma count_hydrogens_heavy:
  "\<forall>a\<in>set vs. isHydrogen (cells s a) = Inr False \<Longrightarrow> count_hydrogens E vs s acc = Inr (s, acc)"
  by (induction vs) auto

lemma count_hydrogens_planned:
  "\<forall>(h, a, b)\<in>set new. isHydrogen (cells s h) = Inr True \<and> map_of E h = Some [(a, b)] \<Longrightarrow>
     count_hydrogens E (map fst new) s acc =
       Inr (fold (\<lambda>a. add_implicit a 1) (map (\<lambda>(h, a, b). a) new) s, acc @ map fst new)"
proof (induction new arbitrary: s acc)
  case Nil
  then show ?case by simp
next
  case (Cons t new)
  obtain h a b where t: "t = (h, a, b)" by (cases t)
  from Cons.prems t have hd: "isHydrogen (cells s h) = Inr True" "map_of E h = Some [(a, b)]"
    by auto
  from Cons.prems have
    "\<forall>(h, a', b)\<in>set new. isHydrogen (cells (add_implicit a 1 s) h) = Inr True \<and> map_of E h = Some [(a', b)]"
    by auto
  from Cons.IH [OF this] hd t show ?case by simp
qed

lemma fold_add_implicit_counter:
  "implicitHydrogens (cells (fold (\<lambda>a. add_implicit a 1) as s) x) =
     implicitHydrogens (cells s x) + int (count_list as x)"
  by (induction as arbitrary: s) (auto simp: add_implicit_def)

lemma isHydrogen_element:
  "element x = element y \<Longrightarrow> isHydrogen x = isHydrogen y"
  by (simp add: isHydrogen_def atom_number_def)

lemma makeHydrogensExplicit_planned:
  assumes reg: "reg ''H'' = Some (AnElement eH)" and al: "\<forall>a\<in>set (vertices g). a < next_addr s"
  shows "\<exists>s1 new. makeHydrogensExplicit reg (s, g) =
            Inr (s1, (add_hydrogens new g)\<lparr>implicitHydrogensFlag := False\<rparr>) \<and>
          planned eH (set (vertices g)) s s1 new"
proof -
  from plan_all_planned [of reg eH "vertices g" s "[]", OF reg al] obtain s1 new where
    "plan_all reg (vertices g) s [] = Inr (s1, [] @ new)" "planned eH (set (vertices g)) s s1 new"
    by blast
  then show ?thesis by (auto simp: makeHydrogensExplicit_def)
qed

lemma implicit_after_planned:
  assumes num: "number eH = 1"
    and heavy: "\<forall>a\<in>set vs. isHydrogen (cells s a) = Inr False"
    and al: "\<forall>a\<in>set vs. a < next_addr s"
    and p: "planned eH (set vs) s s1 new"
    and v1: "vertices g1 = vs @ map fst new"
    and e1: "edges g1 = edges (add_hydrogens new g)"
    and ne: "vs \<noteq> []"
  shows "makeHydrogensImplicit (s1, g1) =
           Inr (fold (\<lambda>a. add_implicit a 1) (map (\<lambda>(h, a, b). a) new) s1,
                (remove_atoms (map fst new) g1)\<lparr>implicitHydrogensFlag := True\<rparr>)"
proof -
  let ?hs = "map fst new"
  have hs: "?hs = [next_addr s..<next_addr s1]" by (rule plannedD2 [OF p])
  have heavy1: "\<forall>a\<in>set vs. isHydrogen (cells s1 a) = Inr False"
  proof
    fix a assume a: "a \<in> set vs"
    with al have "a < next_addr s" by simp
    from plannedD4 [OF p this] have "element (cells s1 a) = element (cells s a)" by simp
    from isHydrogen_element [OF this] heavy a show "isHydrogen (cells s1 a) = Inr False" by simp
  qed
  have hyd1: "\<forall>h\<in>set ?hs. element (cells s1 h) = Some (AnElement eH)"
  proof
    fix h assume "h \<in> set ?hs"
    with hs have "next_addr s \<le> h" "h < next_addr s1" by simp_all
    from plannedD5 [OF p this] show "element (cells s1 h) = Some (AnElement eH)" .
  qed
  then have hyd2: "\<forall>h\<in>set ?hs. isHydrogen (cells s1 h) = Inr True"
    using num by (simp add: isHydrogen_def atom_number_def)
  have tg: "\<forall>(h, a, b)\<in>set new. a \<in> set vs"
    using plannedD3 [OF p] by blast
  have disj: "(\<lambda>(h, a, b). a) ` set new \<inter> fst ` set new = {}"
  proof -
    have "\<And>h a b h'. (h, a, b) \<in> set new \<Longrightarrow> h' \<in> set ?hs \<Longrightarrow> a \<noteq> h'"
    proof -
      fix h a b h' assume "(h, a, b) \<in> set new" and h': "h' \<in> set ?hs"
      with tg al have "a < next_addr s" by auto
      moreover from h' hs have "next_addr s \<le> h'" by simp
      ultimately show "a \<noteq> h'" by simp
    qed
    then show ?thesis by fastforce
  qed
  have dist: "distinct ?hs" by (simp only: hs distinct_upt)
  have entries: "\<forall>(h, a, b)\<in>set new.
      isHydrogen (cells s1 h) = Inr True \<and> map_of (edges g1) h = Some [(a, b)]"
  proof (intro ballI, clarify)
    fix h a b assume t: "(h, a, b) \<in> set new"
    then have "h \<in> set ?hs" by force
    with hyd2 have "isHydrogen (cells s1 h) = Inr True" by blast
    moreover from add_hydrogens_entry [OF t dist disj, of g] e1
    have "map_of (edges g1) h = Some [(a, b)]" by simp
    ultimately show "isHydrogen (cells s1 h) = Inr True \<and> map_of (edges g1) h = Some [(a, b)]"
      by simp
  qed
  have el: "\<forall>a\<in>set (vertices g1). has_element (cells s1 a)"
  proof
    fix a assume "a \<in> set (vertices g1)"
    with v1 have "a \<in> set vs \<or> a \<in> set ?hs" by auto
    then show "has_element (cells s1 a)"
    proof
      assume "a \<in> set vs"
      with heavy1 have "isHydrogen (cells s1 a) = Inr False" by simp
      then show ?thesis
        by (auto simp: isHydrogen_def atom_number_def has_element_def
            split: option.splits elemval.splits)
    next
      assume "a \<in> set ?hs"
      with hyd1 have "element (cells s1 a) = Some (AnElement eH)" by blast
      then show ?thesis by (simp add: has_element_def)
    qed
  qed
  from ne obtain a0 where a0: "a0 \<in> set vs" by (cases vs) auto
  with heavy1 have "isHydrogen (cells s1 a0) \<noteq> Inr True" by simp
  with a0 v1 have notall:
    "\<not> list_all (\<lambda>b. b) (map (\<lambda>a. isHydrogen (cells s1 a) = Inr True) (vertices g1))"
    by (auto simp: list_all_iff)
  have count: "count_hydrogens (edges g1) (vertices g1) s1 [] =
      Inr (fold (\<lambda>a. add_implicit a 1) (map (\<lambda>(h, a, b). a) new) s1, ?hs)"
    using count_hydrogens_heavy [OF heavy1, of "edges g1" "[]"]
      count_hydrogens_planned [OF entries, of "[]"]
    by (simp add: v1 count_hydrogens_append)
  show ?thesis
    using hydrogen_flags_total [OF el] notall count
    by (simp add: makeHydrogensImplicit_def)
qed

text \<open>
  C3, as amended. On a graph with no hydrogen vertex (all of its atoms and bond endpoints being
  objects of the store, and \<^verbatim>\<open>'H'\<close> resolving to the element of atomic number 1),
  \<^verbatim>\<open>makeHydrogensExplicit\<close> followed by \<^verbatim>\<open>makeHydrogensImplicit\<close> returns and restores the
  number of atoms, the number of bonds and the counter of implicit hydrogens of every atom.
\<close>

theorem explicit_then_implicit_restores:
  assumes reg: "reg ''H'' = Some (AnElement eH)" and num: "number eH = 1"
    and heavy: "heavy_only s (vertices g)"
    and alloc: "allocated s g"
  shows "\<exists>s1 g1 s2 g2.
     makeHydrogensExplicit reg (s, g) = Inr (s1, g1) \<and>
     makeHydrogensImplicit (s1, g1) = Inr (s2, g2) \<and>
     length (vertices g2) = length (vertices g) \<and>
     count_bonds (edges g2) = count_bonds (edges g) \<and>
     (\<forall>a\<in>set (vertices g). implicitHydrogens (cells s2 a) = implicitHydrogens (cells s a))"
proof -
  let ?vs = "vertices g"
  from alloc have al: "\<forall>a\<in>set ?vs. a < next_addr s"
    by (simp add: allocated_def list_all_iff)
  from alloc have keys: "\<forall>(a, d)\<in>set (edges g). a < next_addr s \<and> (\<forall>(b, bd)\<in>set d. b < next_addr s)"
    by (simp add: allocated_def list_all_iff)
  from heavy have hv: "\<forall>a\<in>set ?vs. isHydrogen (cells s a) = Inr False"
    by (simp add: heavy_only_def list_all_iff)
  from makeHydrogensExplicit_planned [where reg = reg and eH = eH, OF reg al] obtain s1 new where
    ex: "makeHydrogensExplicit reg (s, g) =
            Inr (s1, (add_hydrogens new g)\<lparr>implicitHydrogensFlag := False\<rparr>)"
    and p: "planned eH (set ?vs) s s1 new"
    by blast
  let ?g1 = "(add_hydrogens new g)\<lparr>implicitHydrogensFlag := False\<rparr>"
  let ?hs = "map fst new"
  have v1: "vertices ?g1 = ?vs @ ?hs" by (simp add: add_hydrogens_vertices)
  have e1: "edges ?g1 = edges (add_hydrogens new g)" by simp
  show ?thesis
  proof (cases "?vs = []")
    case True
    have "new = []"
    proof (cases new)
      case Nil
      then show ?thesis .
    next
      case (Cons t rest)
      obtain h a b where "t = (h, a, b)" by (cases t)
      with Cons plannedD3 [OF p, of h a b] True show ?thesis by simp
    qed
    with True have "makeHydrogensImplicit (s1, ?g1) = Inr (s1, ?g1)"
      by (simp add: makeHydrogensImplicit_def)
    with ex \<open>new = []\<close> True show ?thesis by auto
  next
    case False
    let ?s2 = "fold (\<lambda>a. add_implicit a 1) (map (\<lambda>(h, a, b). a) new) s1"
    let ?g2 = "(remove_atoms ?hs ?g1)\<lparr>implicitHydrogensFlag := True\<rparr>"
    from implicit_after_planned [OF num hv al p v1 e1 False]
    have im: "makeHydrogensImplicit (s1, ?g1) = Inr (?s2, ?g2)" .
    have hs: "?hs = [next_addr s..<next_addr s1]" by (rule plannedD2 [OF p])
    have fresh: "set ?hs \<inter> set ?vs = {}"
      using al by (auto simp: hs)
    have vert: "vertices ?g2 = ?vs"
      using remove_atoms_vertices [OF v1 fresh] by simp
    have foreign: "\<forall>(a, d)\<in>set (edges g). a \<notin> set ?hs \<and> (\<forall>(b, bd)\<in>set d. b \<notin> set ?hs)"
      using keys by (fastforce simp: hs)
    have "fst ` set new \<subseteq> set ?hs" by simp
    from count_strip_add_hydrogens [OF this, of g] strip_atoms_foreign [OF foreign]
    have bonds: "count_bonds (edges ?g2) = count_bonds (edges g)"
      by (simp add: remove_atoms_edges)
    have counters: "\<forall>a\<in>set ?vs. implicitHydrogens (cells ?s2 a) = implicitHydrogens (cells s a)"
    proof
      fix a assume "a \<in> set ?vs"
      with al have "a < next_addr s" by simp
      from plannedD4 [OF p this] show "implicitHydrogens (cells ?s2 a) = implicitHydrogens (cells s a)"
        by (simp add: fold_add_implicit_counter)
    qed
    from ex im vert bonds counters have
      "makeHydrogensExplicit reg (s, g) = Inr (s1, ?g1) \<and>
       makeHydrogensImplicit (s1, ?g1) = Inr (?s2, ?g2) \<and>
       length (vertices ?g2) = length (vertices g) \<and>
       count_bonds (edges ?g2) = count_bonds (edges g) \<and>
       (\<forall>a\<in>set (vertices g). implicitHydrogens (cells ?s2 a) = implicitHydrogens (cells s a))"
      by simp
    then show ?thesis by blast
  qed
qed

text \<open>
  C3 as stated fails: in a carbon bonded to one explicit hydrogen, the hydrogen has degree 1,
  and the round trip strips it: one atom is left of two, no bond of one, and the counter of the
  carbon is 1, not 0.
\<close>

theorem explicit_hydrogen_not_restored:
  "isHydrogen (cells ch_store 1) = Inr True \<and> degree (edges ch_graph) 1 = 1 \<and>
   isHydrogen (cells ch_store 0) = Inr False \<and>
   length (vertices ch_graph) = 2 \<and> count_bonds (edges ch_graph) = 2 \<and>
   implicitHydrogens (cells ch_store 0) = 0 \<and>
   (case makeHydrogensExplicit example_reg (ch_store, ch_graph) of
      Inl e \<Rightarrow> False
    | Inr sg1 \<Rightarrow>
        (case makeHydrogensImplicit sg1 of
           Inl e \<Rightarrow> False
         | Inr (s2, g2) \<Rightarrow>
             length (vertices g2) = 1 \<and> count_bonds (edges g2) = 0 \<and>
             implicitHydrogens (cells s2 0) = 1))"
  by (simp add: export_eval plan_hydrogens.simps degree_def count_bonds_def)

theorem explicit_then_implicit_restores_witness:
  "\<exists>s1 g1 s2 g2.
     makeHydrogensExplicit example_reg (c2h6_store, c2h6_graph) = Inr (s1, g1) \<and>
     makeHydrogensImplicit (s1, g1) = Inr (s2, g2) \<and>
     length (vertices g2) = 2 \<and> count_bonds (edges g2) = 2 \<and>
     implicitHydrogens (cells s2 0) = 3 \<and> implicitHydrogens (cells s2 1) = 3"
proof -
  have h1: "example_reg ''H'' = Some (AnElement elH)" by (simp add: example_reg_def)
  have h2: "number elH = 1" by (simp add: elH_def)
  have h3: "heavy_only c2h6_store (vertices c2h6_graph)"
    by (simp add: heavy_only_def c2h6_store_def c2h6_graph_def store_of_def mk_atom_def elC_def
        isHydrogen_def atom_number_def)
  have h4: "allocated c2h6_store c2h6_graph"
    by (simp add: allocated_def c2h6_store_def c2h6_graph_def store_of_def)
  from explicit_then_implicit_restores [of example_reg elH c2h6_store c2h6_graph, OF h1 h2 h3 h4]
  obtain s1 g1 s2 g2 where
    r: "makeHydrogensExplicit example_reg (c2h6_store, c2h6_graph) = Inr (s1, g1)"
      "makeHydrogensImplicit (s1, g1) = Inr (s2, g2)"
    and l: "length (vertices g2) = length (vertices c2h6_graph)"
    and b: "count_bonds (edges g2) = count_bonds (edges c2h6_graph)"
    and c: "\<forall>a\<in>set (vertices c2h6_graph).
        implicitHydrogens (cells s2 a) = implicitHydrogens (cells c2h6_store a)"
    by blast
  from l have l': "length (vertices g2) = 2" by (simp add: c2h6_graph_def)
  from b have b': "count_bonds (edges g2) = 2" by (simp add: c2h6_graph_def count_bonds_def)
  from c have c': "implicitHydrogens (cells s2 0) = 3" "implicitHydrogens (cells s2 1) = 3"
    by (simp_all add: c2h6_graph_def c2h6_store_def store_of_def mk_atom_def)
  from r l' b' c' show ?thesis by blast
qed

subsection \<open>Spin codes and the failure of the import\<close>

lemma same_elements_isHydrogen:
  "same_elements s s' \<Longrightarrow> isHydrogen (cells s a) = isHydrogen (cells s' a)"
  by (rule isHydrogen_element) (simp add: same_elements_def)

lemma same_elements_add_implicit:
  "same_elements s s' \<Longrightarrow> same_elements (add_implicit n d s) (add_implicit n d s')"
  by (simp add: same_elements_def add_implicit_def)

lemma same_elements_alloc:
  "same_elements s s' \<Longrightarrow> element a = element a' \<Longrightarrow>
     fst (alloc a s) = fst (alloc a' s') \<and> same_elements (snd (alloc a s)) (snd (alloc a' s'))"
  by (simp add: same_elements_def alloc_def)

lemma import_bonds_GetBond:
  "GetBond ob = GetBond ob' \<Longrightarrow> import_bonds ob i js g = import_bonds ob' i js g"
  by (induction js arbitrary: g) (auto split: option.splits sum.splits)

lemma hydrogen_flags_same:
  "same_elements s s' \<Longrightarrow> hydrogen_flags s vs = hydrogen_flags s' vs"
  by (induction vs) (auto simp: same_elements_isHydrogen [of s s'] split: sum.splits)

lemma count_hydrogens_same:
  "same_elements s s' \<Longrightarrow>
     rel_sum (\<lambda>e e'. True) (\<lambda>(s1, hs1) (s1', hs1'). same_elements s1 s1' \<and> hs1 = hs1')
       (count_hydrogens E vs s hs) (count_hydrogens E vs s' hs)"
proof (induction vs arbitrary: s s' hs)
  case Nil
  then show ?case by simp
next
  case (Cons a vs)
  note eq = same_elements_isHydrogen [OF Cons.prems, of a]
  show ?case
  proof (cases "isHydrogen (cells s' a)")
    case (Inl e)
    with eq show ?thesis by simp
  next
    case (Inr b)
    show ?thesis
    proof (cases b)
      case False
      with Inr eq Cons.IH [OF Cons.prems] show ?thesis by simp
    next
      case True
      show ?thesis
      proof (cases "map_of E a")
        case None
        with True Inr eq show ?thesis by simp
      next
        case (Some d)
        show ?thesis
        proof (cases d)
          case Nil
          with Some True Inr eq show ?thesis by simp
        next
          case (Cons p rest)
          obtain n bd where "p = (n, bd)" by (cases p)
          with Cons Some True Inr eq
            Cons.IH [OF same_elements_add_implicit [OF Cons.prems, of n 1], of "hs @ [a]"]
          show ?thesis by simp
        qed
      qed
    qed
  qed
qed

lemma makeHydrogensImplicit_same:
  assumes "same_elements s s'"
  shows "isl (makeHydrogensImplicit (s, g)) = isl (makeHydrogensImplicit (s', g))"
proof -
  from count_hydrogens_same [OF assms, of "edges g" "vertices g" "[]"]
  have "isl (count_hydrogens (edges g) (vertices g) s []) =
        isl (count_hydrogens (edges g) (vertices g) s' [])"
    by (auto elim: rel_sum.cases)
  then show ?thesis
    using hydrogen_flags_same [OF assms, of "vertices g"]
    by (auto simp: makeHydrogensImplicit_def split: sum.splits)
qed

lemma import_atoms_same:
  "map AtomicNum oas = map AtomicNum oas' \<Longrightarrow> GetBond ob = GetBond ob' \<Longrightarrow>
   same_elements s s' \<Longrightarrow>
     rel_sum (\<lambda>e e'. True) (\<lambda>(s1, g1) (s1', g1'). same_elements s1 s1' \<and> g1 = g1')
       (import_atoms reg ge ob i oas (s, g)) (import_atoms reg ge ob' i oas' (s', g))"
proof (induction oas arbitrary: oas' i s s' g)
  case Nil
  then show ?case by simp
next
  case (Cons oa oas)
  from Cons.prems(1) obtain oa' rest' where oas': "oas' = oa' # rest'"
    and num: "AtomicNum oa' = AtomicNum oa" and rest: "map AtomicNum oas = map AtomicNum rest'"
    by (cases oas') auto
  show ?case
  proof (cases "ge (AtomicNum oa)")
    case (Inl e)
    with oas' num show ?thesis by simp
  next
    case (Inr el)
    define a where "a = \<lparr>element = Some (AnElement el),
      radicalElectrons = fst (decode_spin (SpinMultiplicity oa)),
      spinMultiplicity = snd (decode_spin (SpinMultiplicity oa)),
      implicitHydrogens = 0, charge = FormalCharge oa, label = ''''\<rparr>"
    define a' where "a' = \<lparr>element = Some (AnElement el),
      radicalElectrons = fst (decode_spin (SpinMultiplicity oa')),
      spinMultiplicity = snd (decode_spin (SpinMultiplicity oa')),
      implicitHydrogens = 0, charge = FormalCharge oa', label = ''''\<rparr>"
    have mk: "Atom_init reg (Elem (Some (AnElement el))) (fst (decode_spin (SpinMultiplicity oa)))
        (snd (decode_spin (SpinMultiplicity oa))) 0 (FormalCharge oa) '''' = Inr a"
      by (simp add: Atom_init_def a_def)
    have mk': "Atom_init reg (Elem (Some (AnElement el))) (fst (decode_spin (SpinMultiplicity oa')))
        (snd (decode_spin (SpinMultiplicity oa'))) 0 (FormalCharge oa') '''' = Inr a'"
      by (simp add: Atom_init_def a'_def)
    have "element a = element a'" by (simp add: a_def a'_def)
    from same_elements_alloc [OF Cons.prems(3) this]
    have fst: "fst (alloc a s) = fst (alloc a' s')"
      and snd: "same_elements (snd (alloc a s)) (snd (alloc a' s'))"
      by simp_all
    let ?g = "g\<lparr>vertices := vertices g @ [fst (alloc a s)]\<rparr>"
    note ib = import_bonds_GetBond [OF Cons.prems(2), of i "[0..<i]" ?g]
    have ib': "import_bonds ob' i [0..<i] (g\<lparr>vertices := vertices g @ [fst (alloc a' s')]\<rparr>) =
        import_bonds ob i [0..<i] ?g"
      using ib fst by simp
    show ?thesis
    proof (cases "import_bonds ob i [0..<i] ?g")
      case (Inl e)
      have l: "import_atoms reg ge ob i (oa # oas) (s, g) = Inl e"
        using \<open>ge (AtomicNum oa) = Inr el\<close> mk Inl by simp
      have r: "import_atoms reg ge ob' i oas' (s', g) = Inl e"
        using \<open>ge (AtomicNum oa) = Inr el\<close> mk' Inl ib' oas' num by simp
      show ?thesis by (simp only: l r rel_sum_simps)
    next
      case (Inr g1)
      have l: "import_atoms reg ge ob i (oa # oas) (s, g) =
          import_atoms reg ge ob (Suc i) oas (snd (alloc a s), g1)"
        using \<open>ge (AtomicNum oa) = Inr el\<close> mk Inr by simp
      have r: "import_atoms reg ge ob' i oas' (s', g) =
          import_atoms reg ge ob' (Suc i) rest' (snd (alloc a' s'), g1)"
        using \<open>ge (AtomicNum oa) = Inr el\<close> mk' Inr ib' oas' num by simp
      from Cons.IH [OF rest Cons.prems(2) snd, of "Suc i" g1]
      show ?thesis by (simp only: l r)
    qed
  qed
qed

lemma fromOBMol_codes_irrelevant:
  assumes "map AtomicNum (obatoms (addH ob)) = map AtomicNum (obatoms (addH ob'))"
    and "GetBond (addH ob) = GetBond (addH ob')"
  shows "isl (fromOBMol reg ge addH ob s) = isl (fromOBMol reg ge addH ob' s)"
proof -
  let ?r = "import_atoms reg ge (addH ob) 0 (obatoms (addH ob)) (s, ChemGraph_init None None)"
  let ?r' = "import_atoms reg ge (addH ob') 0 (obatoms (addH ob')) (s, ChemGraph_init None None)"
  have "same_elements s s" by (simp add: same_elements_def)
  from import_atoms_same [OF assms this, of reg ge 0 "ChemGraph_init None None"]
  have rel: "rel_sum (\<lambda>e e'. True) (\<lambda>(s1, g1) (s1', g1'). same_elements s1 s1' \<and> g1 = g1') ?r ?r'" .
  show ?thesis
  proof (cases ?r)
    case (Inl e)
    with rel obtain e' where "?r' = Inl e'" by (cases ?r') auto
    with Inl show ?thesis by (simp add: fromOBMol_def)
  next
    case (Inr sg)
    obtain s1 g1 where sg: "sg = (s1, g1)" by (cases sg)
    from rel Inr sg obtain s1' where r': "?r' = Inr (s1', g1)" and same: "same_elements s1 s1'"
      by (cases ?r') auto
    from makeHydrogensImplicit_same [OF same, of g1]
    have "isl (makeHydrogensImplicit (s1, g1)) = isl (makeHydrogensImplicit (s1', g1))" .
    with Inr sg r' show ?thesis
      by (auto simp: fromOBMol_def split: sum.splits)
  qed
qed

text \<open>
  C1, as amended. The atom built for the foreign atom at position \<open>k\<close> is the object at
  address \<open>next_addr s + k\<close>. When the import returns, its radical electrons and spin
  multiplicity follow the table for the codes 0, 1, 2 and 3; for any other code the atom has
  no radical electrons and the code itself as spin multiplicity. Decoding raises nothing: two
  foreign molecules whose forms completed by \<^verbatim>\<open>AddHydrogens\<close> have the same atomic numbers and
  the same bonds are both imported or both rejected, whatever their spin codes. (What
  \<^verbatim>\<open>AddHydrogens\<close> itself makes of a spin code is the foreign model's own business.)
\<close>

theorem fromOBMol_spin_table:
  assumes "c = SpinMultiplicity (obatoms (addH ob) ! k)"
    and "a = cells s' (next_addr s + k)"
  shows "(fromOBMol reg ge addH ob s = Inr (s', m) \<and> k < length (obatoms (addH ob)) \<longrightarrow>
           (c = 0 \<longrightarrow> radicalElectrons a = 0 \<and> spinMultiplicity a = 1) \<and>
           (c = 1 \<longrightarrow> radicalElectrons a = 2 \<and> spinMultiplicity a = 1) \<and>
           (c = 2 \<longrightarrow> radicalElectrons a = 1 \<and> spinMultiplicity a = 2) \<and>
           (c = 3 \<longrightarrow> radicalElectrons a = 2 \<and> spinMultiplicity a = 3) \<and>
           (c \<notin> {0, 1, 2, 3} \<longrightarrow> radicalElectrons a = 0 \<and> spinMultiplicity a = c)) \<and>
         (map AtomicNum (obatoms (addH ob)) = map AtomicNum (obatoms (addH ob')) \<and>
          GetBond (addH ob) = GetBond (addH ob') \<longrightarrow>
            isl (fromOBMol reg ge addH ob s) = isl (fromOBMol reg ge addH ob' s))"
  using fromOBMol_decoded [of reg ge addH ob s s' m k c a] assms
    fromOBMol_codes_irrelevant [of addH ob ob' reg ge s]
  by blast

lemma singlet_import:
  "\<not> isl (fromOBMol example_reg example_getElement complete singlet empty_store)"
  by (simp add: import_eval singlet_def)

theorem fromOBMol_spin_table_witness:
  "(\<exists>s' m. fromOBMol example_reg example_getElement complete vinyl empty_store = Inr (s', m) \<and>
     map SpinMultiplicity (obatoms (complete vinyl)) = [2, 3, 0] \<and>
     radicalElectrons (cells s' 0) = 1 \<and> spinMultiplicity (cells s' 0) = 2 \<and>
     radicalElectrons (cells s' 1) = 2 \<and> spinMultiplicity (cells s' 1) = 3 \<and>
     radicalElectrons (cells s' 2) = 0 \<and> spinMultiplicity (cells s' 2) = 1) \<and>
   map SpinMultiplicity (obatoms (complete singlet)) = [0] \<and>
   map SpinMultiplicity (obatoms (complete quartet)) = [4] \<and>
   \<not> isl (fromOBMol example_reg example_getElement complete singlet empty_store) \<and>
   \<not> isl (fromOBMol example_reg example_getElement complete quartet empty_store)"
proof -
  from vinyl_import' obtain s' m where
    r: "fromOBMol example_reg example_getElement complete vinyl empty_store = Inr (s', m)"
    by blast
  have n: "next_addr empty_store = 0" by (simp add: empty_store_def)
  have l: "map SpinMultiplicity (obatoms (complete vinyl)) = [2, 3, 0]"
    by (simp add: complete_def vinyl_def)
  have len: "0 < length (obatoms (complete vinyl))" "1 < length (obatoms (complete vinyl))"
    "2 < length (obatoms (complete vinyl))" by (simp_all add: complete_def vinyl_def)
  note t = fromOBMol_spin_table [OF refl refl, of example_reg example_getElement complete vinyl
      empty_store s' m _ vinyl, THEN conjunct1, rule_format]
  from t [of 0] t [of 1] t [of 2] r len l n
  have v: "radicalElectrons (cells s' 0) = 1 \<and> spinMultiplicity (cells s' 0) = 2 \<and>
     radicalElectrons (cells s' 1) = 2 \<and> spinMultiplicity (cells s' 1) = 3 \<and>
     radicalElectrons (cells s' 2) = 0 \<and> spinMultiplicity (cells s' 2) = 1"
    by (auto simp: complete_def vinyl_def numeral_2_eq_2)
  have same: "map AtomicNum (obatoms (complete singlet)) = map AtomicNum (obatoms (complete quartet))"
    "GetBond (complete singlet) = GetBond (complete quartet)"
    by (simp_all add: complete_def singlet_def quartet_def)
  from fromOBMol_spin_table [OF refl refl, of example_reg example_getElement complete singlet
      empty_store _ _ 0 quartet, THEN conjunct2, rule_format] same singlet_import
  have q: "\<not> isl (fromOBMol example_reg example_getElement complete quartet empty_store)"
    by blast
  have codes: "map SpinMultiplicity (obatoms (complete singlet)) = [0]"
    "map SpinMultiplicity (obatoms (complete quartet)) = [4]"
    by (simp_all add: complete_def singlet_def quartet_def)
  from r l v have "\<exists>s' m. fromOBMol example_reg example_getElement complete vinyl empty_store = Inr (s', m) \<and>
     map SpinMultiplicity (obatoms (complete vinyl)) = [2, 3, 0] \<and>
     radicalElectrons (cells s' 0) = 1 \<and> spinMultiplicity (cells s' 0) = 2 \<and>
     radicalElectrons (cells s' 1) = 2 \<and> spinMultiplicity (cells s' 1) = 3 \<and>
     radicalElectrons (cells s' 2) = 0 \<and> spinMultiplicity (cells s' 2) = 1"
    by (intro exI [of _ s'] exI [of _ m]) simp
  with codes singlet_import q show ?thesis by simp
qed

end
